theory Spec2Isabelle
  imports Main "HOL-Library.Word"
begin

unbundle bit_operations_syntax

section \<open>The NVS ambient light sensor helper (drivers/iio/common/nvs/nvs_light.c)\<close>

text \<open>
  The module converts a raw hardware sample into lux, decides whether to report it and
  computes the next interrupt thresholds and the poll delay. Its functions
  \<open>nvs_light_interpolate\<close>, \<open>nvs_light_nld\<close>, \<open>nvs_light_read\<close> and
  \<open>nvs_light_enable\<close> are embedded below, one definition per function, with the
  commented sections of \<open>nvs_light_read\<close> as definitions of their own.

  C's \<open>unsigned int\<close>, \<open>u32\<close> and \<open>int\<close> are \<open>32 word\<close>; \<open>s64\<close> and \<open>u64\<close> are
  \<open>64 word\<close>. Arithmetic wraps; a comparison is unsigned (\<open><\<close>) or signed (\<open><s\<close>) as
  the C operand types make it; \<open>ucast\<close> zero-extends or truncates, \<open>scast\<close>
  sign-extends. A division by zero and a read outside the resolution table are
  results of their own.
\<close>

type_synonym u32 = "32 word"
type_synonym s64 = "64 word"

datatype error = DivByZero | NullTable | BadIndex

datatype ret = RET_POLL_NEXT | RET_NO_CHANGE | RET_HW_UPDATE

subsection \<open>Data\<close>

text \<open>
  Modelled from the spec: the structures of linux/nvs.h and linux/nvs_light.h are not
  under src/. The fields are the ones nvs_light.c reads and writes; the spec's data
  model gives their meaning (fixed-point integer and fractional parts, unsigned raw
  values, the all-ones sentinel of \<open>hw_thresh_lo\<close>), and the locals they are copied
  to in nvs_light.c (\<open>unsigned int\<close>, \<open>s64\<close>) give their widths.
\<close>

record nvs_float =
  ival :: u32
  fval :: u32

record sensor_cfg =
  max_range :: nvs_float
  resolution :: nvs_float
  milliamp :: nvs_float
  delay_us_min :: u32
  uncal_lo :: u32
  uncal_hi :: u32
  cal_lo :: u32
  cal_hi :: u32
  thresh_lo :: u32
  thresh_hi :: u32
  report_n :: u32
  scale :: nvs_float
  offset :: nvs_float

record nvs_light_dynamic =
  nld_resolution :: nvs_float
  nld_max_range :: nvs_float
  nld_milliamp :: nvs_float
  delay_min_ms :: u32

record nvs_light =
  timestamp :: s64
  timestamp_report :: s64
  lux :: u32
  hw :: u32
  hw_mask :: u32
  hw_thresh_lo :: u32
  hw_thresh_hi :: u32
  hw_limit_lo :: bool
  hw_limit_hi :: bool
  thresh_valid_lo :: bool
  thresh_valid_hi :: bool
  thresholds_valid :: bool
  nld_i_change :: bool
  calibration_en :: bool
  report :: u32
  poll_delay_ms :: u32
  delay_us :: u32
  nld_i :: u32
  nld_i_lo :: u32
  nld_i_hi :: u32
  nld_tbl :: "nvs_light_dynamic list option"
  cfg :: sensor_cfg

text \<open>
  The report handler is an opaque callback; a call of it is the pair of its arguments,
  the lux value and the report timestamp.
\<close>

type_synonym handler_call = "u32 \<times> s64"

subsection \<open>Division\<close>

text \<open>
  Modelled from the spec: \<open>do_div\<close> is the kernel's division macro (asm/div64.h, not
  under src/): the truncating division the spec describes, of a 64-bit dividend read
  unsigned by a 32-bit unsigned base. The quotient replaces the dividend. A zero base
  is a fault.
\<close>

definition do_div :: "s64 \<Rightarrow> u32 \<Rightarrow> error + s64" where
  "do_div n base = (if base = 0 then Inl DivByZero else Inr (n div ucast base))"

text \<open>C's \<open>/\<close> on two \<open>int\<close>s: truncation towards zero, a fault on a zero divisor.\<close>

definition int_div :: "u32 \<Rightarrow> u32 \<Rightarrow> error + u32" where
  "int_div a b =
     (if b = 0 then Inl DivByZero
      else Inr (word_of_int (sgn (sint a) * sgn (sint b) * (\<bar>sint a\<bar> div \<bar>sint b\<bar>))))"

subsection \<open>nvs_light_interpolate\<close>

definition nvs_light_interpolate :: "u32 \<Rightarrow> s64 \<Rightarrow> u32 \<Rightarrow> u32 \<Rightarrow> u32 \<Rightarrow> error + u32" where
  "nvs_light_interpolate x1 x2 x3 y1 y3 =
     (let divisor = (scast (x3 - x1) :: s64) in
      if divisor = 0 then Inr (ucast x2)
      else
        case do_div ((x2 - scast x1) * scast (y3 - y1)) (ucast divisor) of
          Inl e \<Rightarrow> Inl e
        | Inr q \<Rightarrow>
            let dividend = q + scast y1;
                dividend = (if dividend <s 0 then 0 else dividend)
            in Inr (ucast dividend))"

subsection \<open>nvs_light_nld\<close>

definition nvs_light_nld :: "nvs_light \<Rightarrow> u32 \<Rightarrow> error + (ret \<times> nvs_light)" where
  "nvs_light_nld nl i =
     (case nld_tbl nl of
        None \<Rightarrow> Inl NullTable
      | Some tbl \<Rightarrow>
          if unat i < length tbl then
            let e = tbl ! unat i in
            Inr (RET_POLL_NEXT,
                 nl\<lparr>nld_i := i, nld_i_change := True,
                    cfg := (cfg nl)\<lparr>resolution := nld_resolution e,
                                    max_range := nld_max_range e,
                                    milliamp := nld_milliamp e,
                                    delay_us_min := delay_min_ms e * 1000\<rparr>\<rparr>)
          else Inl BadIndex)"

subsection \<open>nvs_light_read\<close>

text \<open>Lines 172-189: the calibration override and the rate limit. The result of the
  latter is the pair of the locals \<open>report_delay_min\<close> and \<open>poll_delay\<close>.\<close>

definition calibration_override :: "nvs_light \<Rightarrow> nvs_light" where
  "calibration_override nl =
     (if calibration_en nl then nl\<lparr>report := report_n (cfg nl)\<rparr> else nl)"

definition rate_limit :: "nvs_light \<Rightarrow> error + (bool \<times> u32)" where
  "rate_limit nl =
     (if report nl < report_n (cfg nl) then
        let timestamp_diff = timestamp nl - timestamp_report nl;
            delay = (ucast (delay_us nl * 1000) :: s64)
        in if timestamp_diff <s delay then
             case do_div (delay - timestamp_diff) 1000 of
               Inl e \<Rightarrow> Inl e
             | Inr delay' \<Rightarrow> Inr (False, ucast delay')
           else Inr (True, 0)
      else Inr (True, 0))"

text \<open>Lines 190-208: the threshold flags. The result is the state and the locals
  \<open>thresh_lo\<close> and \<open>thresh_hi\<close>; line 192 loads \<open>thresh_hi\<close> from
  \<open>cfg->thresh_lo\<close>.\<close>

definition threshold_flags :: "nvs_light \<Rightarrow> nvs_light \<times> u32 \<times> u32" where
  "threshold_flags nl =
     (let t_lo = thresh_lo (cfg nl);
          t_hi = thresh_lo (cfg nl);
          (nl, t_lo) = (if t_lo < hw_mask nl then (nl\<lparr>thresh_valid_lo := True\<rparr>, t_lo)
                        else (nl\<lparr>thresh_valid_lo := False\<rparr>, 0));
          (nl, t_hi) = (if t_hi < hw_mask nl then (nl\<lparr>thresh_valid_hi := True\<rparr>, t_hi)
                        else (nl\<lparr>thresh_valid_hi := False\<rparr>, 0));
          nl = nl\<lparr>thresholds_valid := (thresh_valid_lo nl \<and> thresh_valid_hi nl)\<rparr>
      in (nl, t_lo, t_hi))"

text \<open>Lines 209-217: the limit flags.\<close>

definition limit_flags :: "nvs_light \<Rightarrow> u32 \<Rightarrow> u32 \<Rightarrow> nvs_light" where
  "limit_flags nl t_lo t_hi =
     (let nl = nl\<lparr>hw_limit_lo := (hw nl < t_lo \<or> hw nl = 0)\<rparr>
      in nl\<lparr>hw_limit_hi := (hw nl = hw_mask nl \<or> hw nl > hw_mask nl - t_hi)\<rparr>)"

text \<open>Lines 218-235: what restarts the report burst.\<close>

definition report_trigger :: "nvs_light \<Rightarrow> nvs_light" where
  "report_trigger nl =
     (if nld_i_change nl then nl\<lparr>report := report_n (cfg nl)\<rparr>
      else if thresholds_valid nl then
        (if hw nl < hw_thresh_lo nl then nl\<lparr>report := report_n (cfg nl)\<rparr>
         else if hw nl > hw_thresh_hi nl then nl\<lparr>report := report_n (cfg nl)\<rparr>
         else nl)
      else nl\<lparr>report := report_n (cfg nl)\<rparr>)"

text \<open>Lines 241-253: the uncalibrated value \<open>calc\<close>, from \<open>nl->hw\<close> and the
  resolution and scale of \<open>nl->cfg\<close>. The parameter \<open>sig\<close> is the constant
  \<open>NVS_SCALE_SIGNIFICANCE\<close> of linux/nvs.h, which is not under src/; it is taken
  as an \<open>int\<close>, like the fields it is divided by.\<close>

definition lux_calc :: "u32 \<Rightarrow> u32 \<Rightarrow> sensor_cfg \<Rightarrow> error + s64" where
  "lux_calc sig h c =
     (case (if fval (resolution c) \<noteq> 0 then
              let calc_f = (ucast (h * fval (resolution c)) :: s64)
              in if fval (scale c) \<noteq> 0 then do_div calc_f (fval (scale c))
                 else Inr calc_f
            else Inr 0) of
        Inl e \<Rightarrow> Inl e
      | Inr calc_f \<Rightarrow>
          (case (if ival (resolution c) \<noteq> 0 then
                   case int_div sig (fval (scale c)) of
                     Inl e \<Rightarrow> Inl e
                   | Inr q \<Rightarrow> Inr ((scast q :: s64) * ucast (h * ival (resolution c)))
                 else Inr 0) of
             Inl e \<Rightarrow> Inl e
           | Inr calc_i \<Rightarrow> Inr (calc_i + calc_f)))"

text \<open>Lines 261-278: the new hardware thresholds after the last report of a burst.\<close>

definition new_thresholds :: "nvs_light \<Rightarrow> u32 \<Rightarrow> u32 \<Rightarrow> nvs_light" where
  "new_thresholds nl t_lo t_hi =
     (let calc = (ucast (hw nl) :: s64) - ucast t_lo;
          nl = (if calc <s 0 then nl\<lparr>hw_thresh_lo := 0\<rparr>
                else nl\<lparr>hw_thresh_lo := ucast calc\<rparr>);
          calc = (ucast (hw nl + t_hi) :: s64)
      in if ucast (hw_mask nl) <s calc then nl\<lparr>hw_thresh_hi := hw_mask nl\<rparr>
         else nl\<lparr>hw_thresh_hi := ucast calc\<rparr>)"

text \<open>Lines 236-279: the lux reporting. The result is \<open>ret\<close>, the state and the call
  of the handler, if it was called.\<close>

definition lux_reporting ::
  "u32 \<Rightarrow> nvs_light \<Rightarrow> bool \<Rightarrow> u32 \<Rightarrow> u32 \<Rightarrow> error + (ret \<times> nvs_light \<times> handler_call option)" where
  "lux_reporting sig nl report_delay_min t_lo t_hi =
     (if report nl \<noteq> 0 \<and> report_delay_min then
        let nl = nl\<lparr>report := report nl - 1\<rparr>;
            nl = nl\<lparr>timestamp_report := timestamp nl\<rparr>
        in case lux_calc sig (hw nl) (cfg nl) of
             Inl e \<Rightarrow> Inl e
           | Inr calc \<Rightarrow>
               (case nvs_light_interpolate (uncal_lo (cfg nl)) calc (uncal_hi (cfg nl))
                                           (cal_lo (cfg nl)) (cal_hi (cfg nl)) of
                  Inl e \<Rightarrow> Inl e
                | Inr l \<Rightarrow>
                    let nl = nl\<lparr>lux := l\<rparr>;
                        call = Some (lux nl, timestamp_report nl)
                    in if thresholds_valid nl \<and> report nl = 0
                       then Inr (RET_HW_UPDATE, new_thresholds nl t_lo t_hi, call)
                       else Inr (RET_NO_CHANGE, nl, call))
      else Inr (RET_NO_CHANGE, nl, None))"

text \<open>Lines 280-290: the dynamic resolution.\<close>

definition dynamic_resolution :: "nvs_light \<Rightarrow> ret \<Rightarrow> error + (ret \<times> nvs_light)" where
  "dynamic_resolution nl r =
     (let nl = nl\<lparr>nld_i_change := False\<rparr> in
      if nld_tbl nl \<noteq> None then
        (if hw_limit_hi nl \<and> nld_i nl < nld_i_hi nl then nvs_light_nld nl (nld_i nl + 1)
         else if hw_limit_lo nl \<and> nld_i nl > nld_i_lo nl then nvs_light_nld nl (nld_i nl - 1)
         else Inr (r, nl))
      else Inr (r, nl))"

text \<open>Lines 291-300: the poll time.\<close>

definition poll_time :: "nvs_light \<Rightarrow> bool \<Rightarrow> u32 \<Rightarrow> error + nvs_light" where
  "poll_time nl report_delay_min poll_delay =
     (if nld_i_change nl then
        (case nld_tbl nl of
           None \<Rightarrow> Inl NullTable
         | Some tbl \<Rightarrow>
             if unat (nld_i nl) < length tbl
             then Inr (nl\<lparr>poll_delay_ms := delay_min_ms (tbl ! unat (nld_i nl))\<rparr>)
             else Inl BadIndex)
      else
        let poll_delay = (if report_delay_min then delay_us nl else poll_delay);
            poll_delay = (if poll_delay < delay_us_min (cfg nl) \<or> calibration_en nl
                          then delay_us_min (cfg nl) else poll_delay)
        in Inr (nl\<lparr>poll_delay_ms := poll_delay div 1000\<rparr>))"

text \<open>Lines 301-302: a pending report or the calibration mode asks for a poll.\<close>

definition poll_next_override :: "nvs_light \<Rightarrow> ret \<Rightarrow> ret" where
  "poll_next_override nl r =
     (if report nl \<noteq> 0 \<or> calibration_en nl then RET_POLL_NEXT else r)"

text \<open>The whole of \<open>nvs_light_read\<close>: the return value, the state it leaves and the
  call of the handler, or the fault.\<close>

definition nvs_light_read ::
  "u32 \<Rightarrow> nvs_light \<Rightarrow> error + (ret \<times> nvs_light \<times> handler_call option)" where
  "nvs_light_read sig nl =
     (let nl = calibration_override nl in
      case rate_limit nl of
        Inl e \<Rightarrow> Inl e
      | Inr (report_delay_min, poll_delay) \<Rightarrow>
          (case threshold_flags nl of
             (nl, t_lo, t_hi) \<Rightarrow>
               let nl = limit_flags nl t_lo t_hi;
                   nl = report_trigger nl
               in (case lux_reporting sig nl report_delay_min t_lo t_hi of
                     Inl e \<Rightarrow> Inl e
                   | Inr (r, nl, call) \<Rightarrow>
                       (case dynamic_resolution nl r of
                          Inl e \<Rightarrow> Inl e
                        | Inr (r, nl) \<Rightarrow>
                            (case poll_time nl report_delay_min poll_delay of
                               Inl e \<Rightarrow> Inl e
                             | Inr nl \<Rightarrow>
                                 Inr (poll_next_override nl r, nl, call))))))"

subsection \<open>nvs_light_enable\<close>

definition nvs_light_enable :: "nvs_light \<Rightarrow> error + nvs_light" where
  "nvs_light_enable nl =
     (let nl = (if report_n (cfg nl) = 0 then nl\<lparr>cfg := (cfg nl)\<lparr>report_n := 1\<rparr>\<rparr> else nl);
          nl = nl\<lparr>report := report_n (cfg nl)\<rparr>;
          nl = nl\<lparr>timestamp_report := 0\<rparr>;
          nl = nl\<lparr>hw_thresh_hi := 0\<rparr>;
          nl = nl\<lparr>hw_thresh_lo := - 1\<rparr>
      in case (if nld_tbl nl \<noteq> None
               then (case nvs_light_nld nl (nld_i_hi nl) of
                       Inl e \<Rightarrow> Inl e | Inr (r, nl) \<Rightarrow> Inr nl)
               else Inr (nl\<lparr>poll_delay_ms := delay_us_min (cfg nl) div 1000\<rparr>)) of
           Inl e \<Rightarrow> Inl e
         | Inr nl \<Rightarrow>
             Inr (nl\<lparr>calibration_en :=
                       (ival (scale (cfg nl)) = 1 \<and> fval (scale (cfg nl)) = 0)\<rparr>))"

subsection \<open>The calling driver\<close>

text \<open>
  The driver reads the hardware, places the value and its timestamp in the structure
  and calls \<open>nvs_light_read\<close> (file header, lines 17-25). \<open>sample\<close> is that write;
  \<open>nvs_light_reads\<close> is a sequence of such calls and tells, call by call, whether
  the handler was called; \<open>first_read\<close> is the first call after
  \<open>nvs_light_enable\<close>.
\<close>

definition sample :: "nvs_light \<Rightarrow> u32 \<Rightarrow> s64 \<Rightarrow> nvs_light" where
  "sample nl h t = nl\<lparr>hw := h, timestamp := t\<rparr>"

fun nvs_light_reads :: "u32 \<Rightarrow> nvs_light \<Rightarrow> (u32 \<times> s64) list \<Rightarrow> error + (nvs_light \<times> bool list)" where
  "nvs_light_reads sig nl [] = Inr (nl, [])"
| "nvs_light_reads sig nl ((h, t) # xs) =
     (case nvs_light_read sig (sample nl h t) of
        Inl e \<Rightarrow> Inl e
      | Inr (r, nl', call) \<Rightarrow>
          (case nvs_light_reads sig nl' xs of
             Inl e \<Rightarrow> Inl e
           | Inr (nl'', calls) \<Rightarrow> Inr (nl'', (call \<noteq> None) # calls)))"

definition first_read ::
  "u32 \<Rightarrow> nvs_light \<Rightarrow> u32 \<Rightarrow> s64 \<Rightarrow> error + (ret \<times> nvs_light \<times> handler_call option)" where
  "first_read sig nl h t =
     (case nvs_light_enable nl of
        Inl e \<Rightarrow> Inl e
      | Inr nl' \<Rightarrow> nvs_light_read sig (sample nl' h t))"

definition enable_reads ::
  "u32 \<Rightarrow> nvs_light \<Rightarrow> (u32 \<times> s64) list \<Rightarrow> error + (nvs_light \<times> bool list)" where
  "enable_reads sig nl xs =
     (case nvs_light_enable nl of
        Inl e \<Rightarrow> Inl e
      | Inr nl' \<Rightarrow> nvs_light_reads sig nl' xs)"

subsection \<open>Conditions on a state\<close>

text \<open>The division of line 250 is defined: it is not reached, or its divisor is not zero.\<close>

definition lux_defined :: "sensor_cfg \<Rightarrow> bool" where
  "lux_defined c = (ival (resolution c) = 0 \<or> fval (scale c) \<noteq> 0)"

text \<open>The resolution table, if there is one, has the entries up to \<open>nld_i_hi\<close>, and
  the index is not above \<open>nld_i_hi\<close>.\<close>

definition table_ok :: "nvs_light \<Rightarrow> bool" where
  "table_ok nl =
     (case nld_tbl nl of
        None \<Rightarrow> True
      | Some tbl \<Rightarrow> unat (nld_i_hi nl) < length tbl \<and> nld_i nl \<le> nld_i_hi nl)"

text \<open>The rate-limit gate lets the call report: the burst is untouched, or the period
  \<open>delay_us\<close> has passed since the last report.\<close>

definition gate_open :: "nvs_light \<Rightarrow> bool" where
  "gate_open nl =
     (\<not> (report nl < report_n (cfg nl) \<and>
         timestamp nl - timestamp_report nl <s ucast (delay_us nl * 1000)))"

text \<open>The raw value lies inside the programmed threshold window.\<close>

definition in_window :: "nvs_light \<Rightarrow> bool" where
  "in_window nl = (hw_thresh_lo nl \<le> hw nl \<and> hw nl \<le> hw_thresh_hi nl)"

text \<open>The threshold window is the one \<open>nvs_light_enable\<close> writes (lines 320-321):
  the low threshold all-ones, the high threshold 0.\<close>

definition window_open :: "nvs_light \<Rightarrow> bool" where
  "window_open nl = (hw_thresh_lo nl = - 1 \<and> hw_thresh_hi nl = 0)"

text \<open>The rate-limit gate is open in each call of a sequence of calls.\<close>

fun gates_open :: "u32 \<Rightarrow> nvs_light \<Rightarrow> (u32 \<times> s64) list \<Rightarrow> bool" where
  "gates_open sig nl [] = True"
| "gates_open sig nl ((h, t) # xs) =
     (gate_open (calibration_override (sample nl h t)) \<and>
      (case nvs_light_read sig (sample nl h t) of
         Inl e \<Rightarrow> True
       | Inr (r, nl', call) \<Rightarrow> gates_open sig nl' xs))"

text \<open>The state with another configured high threshold.\<close>

definition set_thresh_hi :: "u32 \<Rightarrow> nvs_light \<Rightarrow> nvs_light" where
  "set_thresh_hi v nl = nl\<lparr>cfg := (cfg nl)\<lparr>thresh_hi := v\<rparr>\<rparr>"

subsection \<open>Example states\<close>

definition cfg_example :: sensor_cfg where
  "cfg_example =
     \<lparr>max_range = \<lparr>ival = 0, fval = 0\<rparr>, resolution = \<lparr>ival = 0, fval = 12500\<rparr>,
      milliamp = \<lparr>ival = 0, fval = 0\<rparr>, delay_us_min = 1000,
      uncal_lo = 0, uncal_hi = 0, cal_lo = 0, cal_hi = 0,
      thresh_lo = 10, thresh_hi = 20, report_n = 3,
      scale = \<lparr>ival = 0, fval = 10000\<rparr>, offset = \<lparr>ival = 0, fval = 0\<rparr>\<rparr>"

definition nl_example :: nvs_light where
  "nl_example =
     \<lparr>timestamp = 0, timestamp_report = 0, lux = 0, hw = 100, hw_mask = 1023,
      hw_thresh_lo = 0, hw_thresh_hi = 0, hw_limit_lo = False, hw_limit_hi = False,
      thresh_valid_lo = False, thresh_valid_hi = False, thresholds_valid = False,
      nld_i_change = False, calibration_en = False, report = 0, poll_delay_ms = 0,
      delay_us = 10000, nld_i = 0, nld_i_lo = 0, nld_i_hi = 0, nld_tbl = None,
      cfg = cfg_example\<rparr>"

definition tbl_example :: "nvs_light_dynamic list" where
  "tbl_example =
     [\<lparr>nld_resolution = \<lparr>ival = 0, fval = 10000\<rparr>, nld_max_range = \<lparr>ival = 655, fval = 0\<rparr>,
       nld_milliamp = \<lparr>ival = 0, fval = 250\<rparr>, delay_min_ms = 100\<rparr>,
      \<lparr>nld_resolution = \<lparr>ival = 0, fval = 40000\<rparr>, nld_max_range = \<lparr>ival = 2621, fval = 0\<rparr>,
       nld_milliamp = \<lparr>ival = 0, fval = 250\<rparr>, delay_min_ms = 50\<rparr>,
      \<lparr>nld_resolution = \<lparr>ival = 0, fval = 160000\<rparr>, nld_max_range = \<lparr>ival = 10485, fval = 0\<rparr>,
       nld_milliamp = \<lparr>ival = 0, fval = 250\<rparr>, delay_min_ms = 25\<rparr>]"

text \<open>A state with the resolution table, at the middle index.\<close>

definition nl_ranging :: nvs_light where
  "nl_ranging = nl_example\<lparr>nld_tbl := Some tbl_example, nld_i := 1, nld_i_hi := 2, report := 3\<rparr>"

section \<open>Properties\<close>

lemmas read_defs =
  nvs_light_read_def calibration_override_def rate_limit_def threshold_flags_def
  limit_flags_def report_trigger_def lux_calc_def new_thresholds_def lux_reporting_def
  dynamic_resolution_def poll_time_def poll_next_override_def nvs_light_nld_def
  do_div_def int_div_def nvs_light_interpolate_def nvs_light_enable_def sample_def
  first_read_def enable_reads_def set_thresh_hi_def

lemmas example_defs = nl_example_def cfg_example_def tbl_example_def

subsection \<open>Machine integers\<close>

lemma sint_diff64:
  fixes a b :: s64
  assumes "0 \<le> sint a - sint b" and "sint a - sint b < 2 ^ 32"
  shows "sint (a - b) = sint a - sint b"
proof -
  have "sint (a - b) = signed_take_bit 63 (sint a - sint b)"
    by (simp add: sint_word_diff)
  also have "\<dots> = sint a - sint b"
    using assms by (intro signed_take_bit_int_eq_self) auto
  finally show ?thesis .
qed

lemma uint_eq_sint:
  fixes x :: s64
  assumes "0 \<le> sint x"
  shows "uint x = sint x"
proof -
  have "uint (word_of_int (sint x) :: s64) = take_bit LENGTH(64) (sint x)"
    by (rule uint_word_of_int_eq)
  then have "uint x = take_bit 64 (sint x)"
    by simp
  also have "\<dots> = sint x"
    using assms sint_less [of x] by (simp add: take_bit_int_eq_self)
  finally show ?thesis .
qed

lemma uint_u32_bound: "uint (w :: u32) < 2 ^ 32"
  using uint_bounded [of w] by simp

lemma uint_ucast_32_64: "uint (ucast (w :: u32) :: s64) = uint w"
  using uint_u32_bound [of w] by (simp add: unsigned_ucast_eq take_bit_int_eq_self)

lemma sint_ucast_32_64: "sint (ucast (w :: u32) :: s64) = uint w"
proof -
  have "sint (ucast w :: s64) = signed_take_bit 63 (uint (ucast w :: s64))"
    by (simp add: sint_uint)
  also have "\<dots> = signed_take_bit 63 (uint w)"
    by (simp only: uint_ucast_32_64)
  also have "\<dots> = uint w"
  proof (rule signed_take_bit_int_eq_self)
    show "- (2 ^ 63) \<le> uint w"
      by (rule order_trans [of _ 0]) simp_all
    show "uint w < 2 ^ 63"
      by (rule less_trans [OF uint_u32_bound]) simp
  qed
  finally show ?thesis .
qed

lemma uint_mult_1000:
  assumes "uint (d :: u32) * 1000 < 2 ^ 32"
  shows "uint (d * 1000) = uint d * 1000"
proof -
  have "uint d * uint (1000 :: u32) < 2 ^ LENGTH(32)"
    using assms by simp
  then have "uint (d * 1000) = uint d * uint (1000 :: u32)"
    by (simp only: uint_mult_lem)
  then show ?thesis
    by simp
qed

lemma ucast_ucast_32: "(ucast (ucast (w :: u32) :: s64) :: u32) = w"
  by (rule bit_word_eqI) (auto simp add: bit_simps)

lemma ucast_64_32_sint: "(ucast (x :: s64) :: u32) = word_of_int (sint x)"
  by (rule bit_word_eqI) (auto simp add: bit_simps min_def)

lemma sint_ucast_diff:
  "sint ((ucast (h :: u32) :: s64) - ucast (t :: u32)) = uint h - uint t"
proof -
  have "sint ((ucast h :: s64) - ucast t) = signed_take_bit 63 (uint h - uint t)"
    by (simp add: sint_word_diff sint_ucast_32_64)
  also have "\<dots> = uint h - uint t"
  proof (rule signed_take_bit_int_eq_self)
    have "- (2 ^ 32) < uint h - uint t"
      using uint_u32_bound [of t] uint_nonnegative [of h] by linarith
    then show "- (2 ^ 63) \<le> uint h - uint t"
      by simp
    have "uint h - uint t < 2 ^ 32"
      using uint_u32_bound [of h] uint_nonnegative [of t] by linarith
    then show "uint h - uint t < 2 ^ 63"
      by simp
  qed
  finally show ?thesis .
qed

lemma mod_self_iff: "((k :: int) mod 2 ^ 32 = k) = (0 \<le> k \<and> k < 2 ^ 32)"
proof
  assume "k mod 2 ^ 32 = k"
  moreover have "0 \<le> k mod 2 ^ 32" and "k mod 2 ^ 32 < 2 ^ 32"
    by simp_all
  ultimately show "0 \<le> k \<and> k < 2 ^ 32"
    by simp
next
  assume "0 \<le> k \<and> k < 2 ^ 32"
  then show "k mod 2 ^ 32 = k"
    by simp
qed

subsection \<open>Divisions\<close>

lemma ucast_scast_32: "(ucast (scast (w :: u32) :: s64) :: u32) = w"
  by (rule bit_word_eqI) (auto simp add: bit_simps)

lemma scast_eq_0: "(scast (w :: u32) :: s64) = 0 \<longleftrightarrow> w = 0"
  by (metis signed_0 ucast_scast_32)

text \<open>The division of \<open>nvs_light_interpolate\<close> never has a zero divisor: the guard of
  line 119 is on the same 32-bit difference that \<open>do_div\<close> divides by.\<close>

lemma nvs_light_interpolate_defined: "\<exists>v. nvs_light_interpolate x1 x2 x3 y1 y3 = Inr v"
  by (simp add: nvs_light_interpolate_def Let_def do_div_def ucast_scast_32 scast_eq_0)

text \<open>The value of \<open>calc\<close>, and the one fault of its computation: line 250 divides by
  \<open>scale.fval\<close> whenever \<open>resolution.ival\<close> is not zero.\<close>

lemma lux_calc_eq:
  "lux_calc sig h c =
     (if ival (resolution c) \<noteq> 0 \<and> fval (scale c) = 0 then Inl DivByZero
      else Inr ((if ival (resolution c) \<noteq> 0
                 then scast (projr (int_div sig (fval (scale c)))) * ucast (h * ival (resolution c))
                 else 0) +
                (if fval (resolution c) \<noteq> 0
                 then (if fval (scale c) \<noteq> 0
                       then ucast (h * fval (resolution c)) div ucast (fval (scale c))
                       else ucast (h * fval (resolution c)))
                 else 0)))"
  by (cases "fval (resolution c) = 0"; cases "fval (scale c) = 0";
      cases "ival (resolution c) = 0")
     (simp_all add: lux_calc_def int_div_def do_div_def)

lemma lux_calc_defined: "lux_defined c \<Longrightarrow> \<exists>calc. lux_calc sig h c = Inr calc"
  by (auto simp add: lux_calc_eq lux_defined_def)

lemma lux_calc_fault: "\<not> lux_defined c \<Longrightarrow> lux_calc sig h c = Inl DivByZero"
  by (simp add: lux_calc_eq lux_defined_def)

subsection \<open>The sections of nvs_light_read\<close>

text \<open>A call returns exactly when each of its sections does.\<close>

lemma nvs_light_read_split:
  "nvs_light_read sig nl = Inr (r, nl', c) \<longleftrightarrow>
     (\<exists>rdm pd a t_lo t_hi r1 b r2 d.
        rate_limit (calibration_override nl) = Inr (rdm, pd) \<and>
        threshold_flags (calibration_override nl) = (a, t_lo, t_hi) \<and>
        lux_reporting sig (report_trigger (limit_flags a t_lo t_hi)) rdm t_lo t_hi = Inr (r1, b, c) \<and>
        dynamic_resolution b r1 = Inr (r2, d) \<and>
        poll_time d rdm pd = Inr nl' \<and>
        r = poll_next_override nl' r2)"
  by (auto simp add: nvs_light_read_def Let_def split: sum.splits prod.splits)

lemma calibration_override_eq:
  "calibration_override nl =
     nl\<lparr>report := (if calibration_en nl then report_n (cfg nl) else report nl)\<rparr>"
  by (simp add: calibration_override_def)

lemma rate_limit_eq:
  "rate_limit nl =
     Inr (if report nl < report_n (cfg nl) \<and>
             timestamp nl - timestamp_report nl <s ucast (delay_us nl * 1000)
          then (False, ucast ((ucast (delay_us nl * 1000) - (timestamp nl - timestamp_report nl))
                               div 1000))
          else (True, 0))"
  by (simp add: rate_limit_def Let_def do_div_def)

lemma threshold_flags_eq:
  "threshold_flags nl =
     (nl\<lparr>thresh_valid_lo := thresh_lo (cfg nl) < hw_mask nl,
         thresh_valid_hi := thresh_lo (cfg nl) < hw_mask nl,
         thresholds_valid := thresh_lo (cfg nl) < hw_mask nl\<rparr>,
      (if thresh_lo (cfg nl) < hw_mask nl then thresh_lo (cfg nl) else 0),
      (if thresh_lo (cfg nl) < hw_mask nl then thresh_lo (cfg nl) else 0))"
  by (simp add: threshold_flags_def Let_def)

lemma report_trigger_eq:
  "report_trigger nl =
     nl\<lparr>report := (if nld_i_change nl \<or> \<not> thresholds_valid nl \<or> hw nl < hw_thresh_lo nl \<or>
                      hw_thresh_hi nl < hw nl
                   then report_n (cfg nl) else report nl)\<rparr>"
  by (simp add: report_trigger_def)

lemma lux_reporting_idle:
  "\<not> (report nl \<noteq> 0 \<and> rdm) \<Longrightarrow> lux_reporting sig nl rdm t_lo t_hi = Inr (RET_NO_CHANGE, nl, None)"
  by (auto simp add: lux_reporting_def)

lemma lux_reporting_fault:
  "report nl \<noteq> 0 \<Longrightarrow> rdm \<Longrightarrow> \<not> lux_defined (cfg nl) \<Longrightarrow>
     lux_reporting sig nl rdm t_lo t_hi = Inl DivByZero"
  by (simp add: lux_reporting_def Let_def lux_calc_fault)

lemma lux_reporting_report:
  assumes "report nl \<noteq> 0" and "rdm" and "lux_defined (cfg nl)"
  shows "\<exists>l. lux_reporting sig nl rdm t_lo t_hi =
           Inr (if thresholds_valid nl \<and> report nl = 1
                then (RET_HW_UPDATE,
                      new_thresholds (nl\<lparr>report := 0, timestamp_report := timestamp nl, lux := l\<rparr>)
                        t_lo t_hi,
                      Some (l, timestamp nl))
                else (RET_NO_CHANGE,
                      nl\<lparr>report := report nl - 1, timestamp_report := timestamp nl, lux := l\<rparr>,
                      Some (l, timestamp nl)))"
proof -
  obtain calc where calc: "lux_calc sig (hw nl) (cfg nl) = Inr calc"
    using lux_calc_defined [OF assms(3)] by blast
  obtain l where l: "nvs_light_interpolate (uncal_lo (cfg nl)) calc (uncal_hi (cfg nl))
                       (cal_lo (cfg nl)) (cal_hi (cfg nl)) = Inr l"
    using nvs_light_interpolate_defined by blast
  show ?thesis
    using assms(1,2) calc l
    by (intro exI [of _ l]) (auto simp add: lux_reporting_def Let_def)
qed

lemma lux_reporting_frame:
  assumes "lux_reporting sig nl rdm t_lo t_hi = Inr (r, nl', c)"
  shows "hw nl' = hw nl" "hw_mask nl' = hw_mask nl" "timestamp nl' = timestamp nl"
    "hw_limit_lo nl' = hw_limit_lo nl" "hw_limit_hi nl' = hw_limit_hi nl"
    "thresh_valid_lo nl' = thresh_valid_lo nl" "thresh_valid_hi nl' = thresh_valid_hi nl"
    "thresholds_valid nl' = thresholds_valid nl" "calibration_en nl' = calibration_en nl"
    "delay_us nl' = delay_us nl" "nld_i nl' = nld_i nl" "nld_i_lo nl' = nld_i_lo nl"
    "nld_i_hi nl' = nld_i_hi nl" "nld_tbl nl' = nld_tbl nl" "cfg nl' = cfg nl"
    "nld_i_change nl' = nld_i_change nl"
  using assms
  by (auto simp add: lux_reporting_def new_thresholds_def Let_def split: sum.splits if_splits)

lemma poll_time_frame:
  assumes "poll_time nl rdm pd = Inr nl'"
  shows "\<exists>p. nl' = nl\<lparr>poll_delay_ms := p\<rparr>"
  using assms
  by (auto simp add: poll_time_def Let_def split: option.splits if_splits)

lemma dynamic_resolution_Inr:
  assumes "dynamic_resolution nl r = Inr (r', nl')"
  shows "hw nl' = hw nl" "hw_mask nl' = hw_mask nl" "timestamp nl' = timestamp nl"
    "hw_limit_lo nl' = hw_limit_lo nl" "hw_limit_hi nl' = hw_limit_hi nl"
    "thresh_valid_lo nl' = thresh_valid_lo nl" "thresh_valid_hi nl' = thresh_valid_hi nl"
    "thresholds_valid nl' = thresholds_valid nl" "calibration_en nl' = calibration_en nl"
    "delay_us nl' = delay_us nl" "nld_i_lo nl' = nld_i_lo nl"
    "nld_i_hi nl' = nld_i_hi nl" "nld_tbl nl' = nld_tbl nl" "report nl' = report nl"
    "hw_thresh_lo nl' = hw_thresh_lo nl" "hw_thresh_hi nl' = hw_thresh_hi nl"
    "nld_i_change nl' =
       (nld_tbl nl \<noteq> None \<and> (hw_limit_hi nl \<and> nld_i nl < nld_i_hi nl \<or>
                              hw_limit_lo nl \<and> nld_i_lo nl < nld_i nl))"
    "nld_i nl' =
       (if nld_tbl nl \<noteq> None \<and> hw_limit_hi nl \<and> nld_i nl < nld_i_hi nl then nld_i nl + 1
        else if nld_tbl nl \<noteq> None \<and> hw_limit_lo nl \<and> nld_i_lo nl < nld_i nl then nld_i nl - 1
        else nld_i nl)"
    "nld_i_change nl' \<Longrightarrow> r' = RET_POLL_NEXT"
    "\<not> nld_i_change nl' \<Longrightarrow> r' = r \<and> cfg nl' = cfg nl"
  using assms
  by (auto simp add: dynamic_resolution_def nvs_light_nld_def Let_def
      split: option.splits if_splits)

lemma before_reporting:
  assumes "threshold_flags (calibration_override nl) = (a, t_lo, t_hi)"
  shows "hw (report_trigger (limit_flags a t_lo t_hi)) = hw nl"
    "hw_mask (report_trigger (limit_flags a t_lo t_hi)) = hw_mask nl"
    "timestamp (report_trigger (limit_flags a t_lo t_hi)) = timestamp nl"
    "calibration_en (report_trigger (limit_flags a t_lo t_hi)) = calibration_en nl"
    "delay_us (report_trigger (limit_flags a t_lo t_hi)) = delay_us nl"
    "cfg (report_trigger (limit_flags a t_lo t_hi)) = cfg nl"
    "nld_i (report_trigger (limit_flags a t_lo t_hi)) = nld_i nl"
    "nld_i_lo (report_trigger (limit_flags a t_lo t_hi)) = nld_i_lo nl"
    "nld_i_hi (report_trigger (limit_flags a t_lo t_hi)) = nld_i_hi nl"
    "nld_tbl (report_trigger (limit_flags a t_lo t_hi)) = nld_tbl nl"
    "hw_thresh_lo (report_trigger (limit_flags a t_lo t_hi)) = hw_thresh_lo nl"
    "hw_thresh_hi (report_trigger (limit_flags a t_lo t_hi)) = hw_thresh_hi nl"
    "thresh_valid_lo (report_trigger (limit_flags a t_lo t_hi)) = (thresh_lo (cfg nl) < hw_mask nl)"
    "thresh_valid_hi (report_trigger (limit_flags a t_lo t_hi)) = (thresh_lo (cfg nl) < hw_mask nl)"
    "thresholds_valid (report_trigger (limit_flags a t_lo t_hi)) = (thresh_lo (cfg nl) < hw_mask nl)"
    "hw_limit_lo (report_trigger (limit_flags a t_lo t_hi)) =
       (hw nl < (if thresh_lo (cfg nl) < hw_mask nl then thresh_lo (cfg nl) else 0) \<or> hw nl = 0)"
    "hw_limit_hi (report_trigger (limit_flags a t_lo t_hi)) =
       (hw nl = hw_mask nl \<or>
        hw_mask nl - (if thresh_lo (cfg nl) < hw_mask nl then thresh_lo (cfg nl) else 0) < hw nl)"
    "report (report_trigger (limit_flags a t_lo t_hi)) =
       (if nld_i_change nl \<or> \<not> thresh_lo (cfg nl) < hw_mask nl \<or> hw nl < hw_thresh_lo nl \<or>
           hw_thresh_hi nl < hw nl
        then report_n (cfg nl)
        else if calibration_en nl then report_n (cfg nl) else report nl)"
  using assms
  by (auto simp add: threshold_flags_eq calibration_override_eq report_trigger_eq
      limit_flags_def Let_def)

lemma threshold_flags_locals:
  assumes "threshold_flags nl = (a, t_lo, t_hi)"
  shows "t_lo = (if thresh_lo (cfg nl) < hw_mask nl then thresh_lo (cfg nl) else 0)"
    and "t_hi = (if thresh_lo (cfg nl) < hw_mask nl then thresh_lo (cfg nl) else 0)"
  using assms by (auto simp add: threshold_flags_eq)

lemma word_succ_unat: "(x :: u32) < y \<Longrightarrow> unat (x + 1) = unat x + 1"
proof -
  assume "x < y"
  then have "unat x < unat y"
    by (simp add: word_less_nat_alt)
  moreover have "unat y < 2 ^ 32"
    using unsigned_less [of y, where 'a = nat] by simp
  ultimately show ?thesis
    by (simp add: unat_word_ariths)
qed

lemma word_pred_unat: "(y :: u32) < x \<Longrightarrow> Suc (unat (x - 1)) = unat x"
proof -
  assume "y < x"
  then have "x \<noteq> 0"
    by auto
  then have "unat (x - 1) = unat x - 1" and "0 < unat x"
    by (simp_all add: unat_minus_one unat_gt_0)
  then show ?thesis
    by simp
qed

lemma poll_next_override_poll: "poll_next_override nl RET_POLL_NEXT = RET_POLL_NEXT"
  by (simp add: poll_next_override_def)

lemma nvs_light_read_nld:
  assumes "nvs_light_read sig nl = Inr (r, nl', c)"
  shows "nld_i_change nl' =
           (nld_tbl nl \<noteq> None \<and> (hw_limit_hi nl' \<and> nld_i nl < nld_i_hi nl \<or>
                                  hw_limit_lo nl' \<and> nld_i_lo nl < nld_i nl))"
    and "nld_i nl' =
           (if nld_tbl nl \<noteq> None \<and> hw_limit_hi nl' \<and> nld_i nl < nld_i_hi nl then nld_i nl + 1
            else if nld_tbl nl \<noteq> None \<and> hw_limit_lo nl' \<and> nld_i_lo nl < nld_i nl then nld_i nl - 1
            else nld_i nl)"
    and "nld_i_change nl' \<Longrightarrow> r = RET_POLL_NEXT"
    and "hw_limit_lo nl' =
           (hw nl < (if thresh_lo (cfg nl) < hw_mask nl then thresh_lo (cfg nl) else 0) \<or> hw nl = 0)"
    and "hw_limit_hi nl' =
           (hw nl = hw_mask nl \<or>
            hw_mask nl - (if thresh_lo (cfg nl) < hw_mask nl then thresh_lo (cfg nl) else 0) < hw nl)"
proof -
  from assms obtain rdm pd a t_lo t_hi r1 b r2 d where
    tf: "threshold_flags (calibration_override nl) = (a, t_lo, t_hi)" and
    lr: "lux_reporting sig (report_trigger (limit_flags a t_lo t_hi)) rdm t_lo t_hi = Inr (r1, b, c)" and
    dr: "dynamic_resolution b r1 = Inr (r2, d)" and
    pt: "poll_time d rdm pd = Inr nl'" and
    r: "r = poll_next_override nl' r2"
    unfolding nvs_light_read_split by blast
  note x = before_reporting [OF tf]
  note b = lux_reporting_frame [OF lr]
  note d = dynamic_resolution_Inr [OF dr]
  from poll_time_frame [OF pt] obtain p where nl': "nl' = d\<lparr>poll_delay_ms := p\<rparr>" ..
  show "nld_i_change nl' =
           (nld_tbl nl \<noteq> None \<and> (hw_limit_hi nl' \<and> nld_i nl < nld_i_hi nl \<or>
                                  hw_limit_lo nl' \<and> nld_i_lo nl < nld_i nl))"
    by (simp add: nl' d b x)
  show "nld_i nl' =
           (if nld_tbl nl \<noteq> None \<and> hw_limit_hi nl' \<and> nld_i nl < nld_i_hi nl then nld_i nl + 1
            else if nld_tbl nl \<noteq> None \<and> hw_limit_lo nl' \<and> nld_i_lo nl < nld_i nl then nld_i nl - 1
            else nld_i nl)"
    by (simp add: nl' d b x)
  show "r = RET_POLL_NEXT" if "nld_i_change nl'"
    using that d(19) by (simp add: nl' r poll_next_override_poll)
  show "hw_limit_lo nl' =
           (hw nl < (if thresh_lo (cfg nl) < hw_mask nl then thresh_lo (cfg nl) else 0) \<or> hw nl = 0)"
    by (simp add: nl' d b x)
  show "hw_limit_hi nl' =
           (hw nl = hw_mask nl \<or>
            hw_mask nl - (if thresh_lo (cfg nl) < hw_mask nl then thresh_lo (cfg nl) else 0) < hw nl)"
    by (simp add: nl' d b x)
qed

lemma dynamic_resolution_defined:
  assumes "table_ok nl"
  shows "\<exists>r' nl'. dynamic_resolution nl r = Inr (r', nl') \<and>
           (nld_i_change nl' \<longrightarrow>
              (\<exists>tbl. nld_tbl nl' = Some tbl \<and> unat (nld_i nl') < length tbl))"
proof (cases "nld_tbl nl")
  case None
  then show ?thesis
    by (simp add: dynamic_resolution_def)
next
  case (Some tbl)
  with assms have len: "unat (nld_i_hi nl) < length tbl" and le: "nld_i nl \<le> nld_i_hi nl"
    by (simp_all add: table_ok_def)
  have up: "unat (nld_i nl + 1) < length tbl" if "nld_i nl < nld_i_hi nl"
    using word_succ_unat [OF that] that len by (simp add: word_less_nat_alt)
  have down: "unat (nld_i nl - 1) < length tbl" if "nld_i_lo nl < nld_i nl"
    using word_pred_unat [OF that] le len by (simp add: word_le_nat_alt)
  show ?thesis
    using Some up down
    by (auto simp add: dynamic_resolution_def nvs_light_nld_def Let_def)
qed

lemma poll_time_defined:
  assumes "nld_i_change nl \<longrightarrow> (\<exists>tbl. nld_tbl nl = Some tbl \<and> unat (nld_i nl) < length tbl)"
  shows "\<exists>nl'. poll_time nl rdm pd = Inr nl'"
  using assms by (auto simp add: poll_time_def Let_def)

lemma lux_reporting_defined:
  assumes "lux_defined (cfg nl)"
  shows "\<exists>r nl' c. lux_reporting sig nl rdm t_lo t_hi = Inr (r, nl', c)"
proof (cases "report nl \<noteq> 0 \<and> rdm")
  case True
  then obtain l where "lux_reporting sig nl rdm t_lo t_hi =
           Inr (if thresholds_valid nl \<and> report nl = 1
                then (RET_HW_UPDATE,
                      new_thresholds (nl\<lparr>report := 0, timestamp_report := timestamp nl, lux := l\<rparr>)
                        t_lo t_hi,
                      Some (l, timestamp nl))
                else (RET_NO_CHANGE,
                      nl\<lparr>report := report nl - 1, timestamp_report := timestamp nl, lux := l\<rparr>,
                      Some (l, timestamp nl)))"
    using lux_reporting_report [OF _ _ assms, of rdm sig t_lo t_hi] by blast
  then show ?thesis
    by (cases "thresholds_valid nl \<and> report nl = 1") auto
next
  case False
  then show ?thesis
    using lux_reporting_idle [OF False] by blast
qed

lemma nvs_light_read_defined:
  assumes "table_ok nl" and "lux_defined (cfg nl)"
  shows "\<exists>r nl' c. nvs_light_read sig nl = Inr (r, nl', c)"
proof -
  obtain rdm pd where rl: "rate_limit (calibration_override nl) = Inr (rdm, pd)"
    using rate_limit_eq [of "calibration_override nl"] by (metis surj_pair)
  obtain a t_lo t_hi where tf: "threshold_flags (calibration_override nl) = (a, t_lo, t_hi)"
    by (cases "threshold_flags (calibration_override nl)")
  note x = before_reporting [OF tf]
  obtain r1 b c where
    lr: "lux_reporting sig (report_trigger (limit_flags a t_lo t_hi)) rdm t_lo t_hi = Inr (r1, b, c)"
  proof -
    have "lux_defined (cfg (report_trigger (limit_flags a t_lo t_hi)))"
      using assms(2) by (simp add: x)
    from lux_reporting_defined [OF this, of sig rdm t_lo t_hi] that show thesis
      by blast
  qed
  note b = lux_reporting_frame [OF lr]
  have "table_ok b"
    using assms(1) by (simp add: table_ok_def b x split: option.splits)
  then obtain r2 d where dr: "dynamic_resolution b r1 = Inr (r2, d)" and
    ix: "nld_i_change d \<longrightarrow> (\<exists>tbl. nld_tbl d = Some tbl \<and> unat (nld_i d) < length tbl)"
    using dynamic_resolution_defined by blast
  obtain nl' where pt: "poll_time d rdm pd = Inr nl'"
    using poll_time_defined [OF ix] by blast
  show ?thesis
    unfolding nvs_light_read_split using rl tf lr dr pt by blast
qed

lemma poll_time_Inr:
  assumes "poll_time nl rdm pd = Inr nl'"
  shows "nl' = nl\<lparr>poll_delay_ms :=
                  (if nld_i_change nl then delay_min_ms (the (nld_tbl nl) ! unat (nld_i nl))
                   else (if (if rdm then delay_us nl else pd) < delay_us_min (cfg nl) \<or>
                            calibration_en nl
                         then delay_us_min (cfg nl)
                         else (if rdm then delay_us nl else pd)) div 1000)\<rparr>"
  using assms
  by (auto simp add: poll_time_def Let_def split: option.splits if_splits)

text \<open>The remaining wait of lines 184-186, in microseconds, when the call comes
  before the period has passed.\<close>

lemma rate_limit_closed:
  assumes rp: "report nl < report_n (cfg nl)"
    and e0: "0 \<le> sint (timestamp nl) - sint (timestamp_report nl)"
    and e1: "sint (timestamp nl) - sint (timestamp_report nl) < uint (delay_us nl) * 1000"
    and ov: "uint (delay_us nl) * 1000 < 2 ^ 32"
  shows "\<exists>pd. rate_limit nl = Inr (False, pd) \<and>
           uint pd = (uint (delay_us nl) * 1000 -
                      (sint (timestamp nl) - sint (timestamp_report nl))) div 1000 \<and>
           pd \<le> delay_us nl"
proof -
  let ?e = "sint (timestamp nl) - sint (timestamp_report nl)"
  let ?D = "uint (delay_us nl) * 1000"
  let ?diff = "timestamp nl - timestamp_report nl"
  let ?delay = "ucast (delay_us nl * 1000) :: s64"
  have sdiff: "sint ?diff = ?e"
    using e0 e1 ov by (intro sint_diff64) auto
  have udelay: "uint ?delay = ?D"
    by (simp only: uint_ucast_32_64 uint_mult_1000 [OF ov])
  have sdelay: "sint ?delay = ?D"
    by (simp only: sint_ucast_32_64 uint_mult_1000 [OF ov])
  have lt: "?diff <s ?delay"
    using e1 by (simp only: word_sless_alt sdiff sdelay)
  have srem: "sint (?delay - ?diff) = ?D - ?e"
  proof (rule sint_diff64 [of ?delay ?diff, unfolded sdiff sdelay])
    show "0 \<le> ?D - ?e"
      using e1 by simp
    show "?D - ?e < 2 ^ 32"
      using e0 ov by simp
  qed
  have "0 \<le> sint (?delay - ?diff)"
    unfolding srem using e1 by simp
  then have "uint (?delay - ?diff) = sint (?delay - ?diff)"
    by (rule uint_eq_sint)
  then have urem: "uint (?delay - ?diff) = ?D - ?e"
    by (simp only: srem)
  let ?q = "(?delay - ?diff) div 1000"
  have uq: "uint ?q = (?D - ?e) div 1000"
    by (simp add: uint_div urem)
  have qb: "(?D - ?e) div 1000 \<le> uint (delay_us nl)"
    using e0 by linarith
  have "uint (ucast ?q :: u32) = take_bit 32 (uint ?q)"
    by (simp add: unsigned_ucast_eq)
  also have "\<dots> = (?D - ?e) div 1000"
    using qb e1 uint_u32_bound [of "delay_us nl"]
    by (simp only: uq) (simp add: take_bit_int_eq_self)
  finally have upd: "uint (ucast ?q :: u32) = (?D - ?e) div 1000" .
  have "rate_limit nl = Inr (False, ucast ?q)"
    using rp lt by (simp add: rate_limit_eq)
  moreover have "(ucast ?q :: u32) \<le> delay_us nl"
    using qb by (simp only: word_le_def upd)
  ultimately show ?thesis
    using upd by blast
qed

text \<open>Lines 261-278 without the 64-bit detour.\<close>

lemma new_thresholds_eq:
  "new_thresholds nl t_lo t_hi =
     nl\<lparr>hw_thresh_lo := (if hw nl < t_lo then 0 else hw nl - t_lo),
        hw_thresh_hi := (if hw_mask nl < hw nl + t_hi then hw_mask nl else hw nl + t_hi)\<rparr>"
proof -
  let ?calc = "(ucast (hw nl) :: s64) - ucast t_lo"
  have neg: "?calc <s 0 \<longleftrightarrow> hw nl < t_lo"
    by (simp add: word_sless_alt sint_ucast_diff word_less_def)
  have low: "(ucast ?calc :: u32) = hw nl - t_lo"
    unfolding ucast_64_32_sint sint_ucast_diff by (rule word_sub_wi [symmetric])
  have high: "ucast (hw_mask nl) <s (ucast (hw nl + t_hi) :: s64) \<longleftrightarrow> hw_mask nl < hw nl + t_hi"
    by (simp add: word_sless_alt sint_ucast_32_64 word_less_def)
  show ?thesis
    by (simp add: new_thresholds_def Let_def neg low high ucast_ucast_32)
qed

lemma lux_reporting_Some:
  assumes "lux_reporting sig nl rdm t_lo t_hi = Inr (r, nl', Some call)"
  shows "report nl \<noteq> 0" and "rdm"
    and "\<exists>l. call = (l, timestamp nl) \<and>
           (r, nl') =
             (if thresholds_valid nl \<and> report nl = 1
              then (RET_HW_UPDATE,
                    new_thresholds (nl\<lparr>report := 0, timestamp_report := timestamp nl, lux := l\<rparr>)
                      t_lo t_hi)
              else (RET_NO_CHANGE,
                    nl\<lparr>report := report nl - 1, timestamp_report := timestamp nl, lux := l\<rparr>))"
  using assms
  by (auto simp add: lux_reporting_def Let_def split: sum.splits if_splits)

text \<open>What the reporting section does to the count and to the window: the window is
  written only by the report that takes the count from 1 to 0.\<close>

lemma lux_reporting_count:
  assumes "lux_reporting sig nl rdm t_lo t_hi = Inr (r, nl', c)"
  shows "(c \<noteq> None) = (report nl \<noteq> 0 \<and> rdm)"
    and "report nl' = (if report nl \<noteq> 0 \<and> rdm then report nl - 1 else report nl)"
    and "report nl \<noteq> 1 \<Longrightarrow>
           hw_thresh_lo nl' = hw_thresh_lo nl \<and> hw_thresh_hi nl' = hw_thresh_hi nl \<and>
           r = RET_NO_CHANGE"
  using assms
  by (auto simp add: lux_reporting_def new_thresholds_eq Let_def split: sum.splits if_splits)

lemma dynamic_resolution_report_n:
  assumes "dynamic_resolution nl r = Inr (r', nl')"
  shows "report_n (cfg nl') = report_n (cfg nl)"
  using assms
  by (auto simp add: dynamic_resolution_def nvs_light_nld_def Let_def
      split: option.splits if_splits)

lemma table_ok_sample: "table_ok (sample nl h t) = table_ok nl"
  by (simp add: table_ok_def sample_def split: option.splits)

text \<open>All three threshold flags follow \<open>cfg->thresh_lo\<close>.\<close>

lemma nvs_light_read_flags:
  assumes "nvs_light_read sig nl = Inr (r, nl', c)"
  shows "thresh_valid_lo nl' = (thresh_lo (cfg nl) < hw_mask nl)"
    and "thresh_valid_hi nl' = (thresh_lo (cfg nl) < hw_mask nl)"
    and "thresholds_valid nl' = (thresh_lo (cfg nl) < hw_mask nl)"
proof -
  from assms obtain rdm pd a t_lo t_hi r1 b r2 d where
    tf: "threshold_flags (calibration_override nl) = (a, t_lo, t_hi)" and
    lr: "lux_reporting sig (report_trigger (limit_flags a t_lo t_hi)) rdm t_lo t_hi = Inr (r1, b, c)" and
    dr: "dynamic_resolution b r1 = Inr (r2, d)" and
    pt: "poll_time d rdm pd = Inr nl'"
    unfolding nvs_light_read_split by blast
  note x = before_reporting [OF tf]
  note b = lux_reporting_frame [OF lr]
  note d = dynamic_resolution_Inr [OF dr]
  from poll_time_frame [OF pt] obtain p where nl': "nl' = d\<lparr>poll_delay_ms := p\<rparr>" ..
  show "thresh_valid_lo nl' = (thresh_lo (cfg nl) < hw_mask nl)"
    and "thresh_valid_hi nl' = (thresh_lo (cfg nl) < hw_mask nl)"
    and "thresholds_valid nl' = (thresh_lo (cfg nl) < hw_mask nl)"
    by (simp_all add: nl' d b x)
qed

lemma nvs_light_enable_Inr:
  assumes "nvs_light_enable nl = Inr nl'"
  shows "report nl' = report_n (cfg nl')" and "report_n (cfg nl') \<noteq> 0"
    and "hw_thresh_lo nl' = - 1" and "hw_thresh_hi nl' = 0" and "timestamp_report nl' = 0"
    and "calibration_en nl' = (ival (scale (cfg nl')) = 1 \<and> fval (scale (cfg nl')) = 0)"
    and "scale (cfg nl') = scale (cfg nl)"
    and "table_ok nl'"
  using assms
  by (auto simp add: nvs_light_enable_def nvs_light_nld_def table_ok_def Let_def
      split: option.splits if_splits sum.splits)

text \<open>A call at the start of a burst, or in calibration mode, passes the gate with a
  count that is not zero: it reports, unless line 250 divides by zero.\<close>

lemma burst_start:
  assumes n: "report_n (cfg nl) \<noteq> 0" and st: "calibration_en nl \<or> report nl = report_n (cfg nl)"
  shows "rate_limit (calibration_override nl) = Inr (True, 0)"
    and "threshold_flags (calibration_override nl) = (a, t_lo, t_hi) \<Longrightarrow>
           report (report_trigger (limit_flags a t_lo t_hi)) = report_n (cfg nl)"
proof -
  have ro: "report (calibration_override nl) = report_n (cfg nl)"
    using st by (auto simp add: calibration_override_eq)
  then show "rate_limit (calibration_override nl) = Inr (True, 0)"
    by (simp add: rate_limit_eq calibration_override_eq)
  assume tf: "threshold_flags (calibration_override nl) = (a, t_lo, t_hi)"
  show "report (report_trigger (limit_flags a t_lo t_hi)) = report_n (cfg nl)"
    using st by (auto simp add: before_reporting [OF tf])
qed

lemma nvs_light_read_fault:
  assumes n: "report_n (cfg nl) \<noteq> 0" and st: "calibration_en nl \<or> report nl = report_n (cfg nl)"
    and lux: "\<not> lux_defined (cfg nl)"
  shows "nvs_light_read sig nl = Inl DivByZero"
proof -
  obtain a t_lo t_hi where tf: "threshold_flags (calibration_override nl) = (a, t_lo, t_hi)"
    by (cases "threshold_flags (calibration_override nl)")
  note x = before_reporting [OF tf]
  note bs = burst_start [OF n st]
  have "lux_reporting sig (report_trigger (limit_flags a t_lo t_hi)) True t_lo t_hi = Inl DivByZero"
    using n lux by (intro lux_reporting_fault) (simp_all add: bs(2) [OF tf] x)
  then show ?thesis
    by (simp add: nvs_light_read_def Let_def bs(1) tf)
qed

lemma nvs_light_read_reports:
  assumes n: "report_n (cfg nl) \<noteq> 0" and st: "calibration_en nl \<or> report nl = report_n (cfg nl)"
    and lux: "lux_defined (cfg nl)" and tok: "table_ok nl"
  shows "\<exists>r nl' l. nvs_light_read sig nl = Inr (r, nl', Some (l, timestamp nl)) \<and>
           (calibration_en nl \<longrightarrow> r = RET_POLL_NEXT \<and>
              (\<not> nld_i_change nl' \<longrightarrow> poll_delay_ms nl' = delay_us_min (cfg nl) div 1000))"
proof -
  obtain a t_lo t_hi where tf: "threshold_flags (calibration_override nl) = (a, t_lo, t_hi)"
    by (cases "threshold_flags (calibration_override nl)")
  note x = before_reporting [OF tf]
  note bs = burst_start [OF n st]
  let ?x = "report_trigger (limit_flags a t_lo t_hi)"
  have "report ?x \<noteq> 0" and "lux_defined (cfg ?x)"
    using n lux by (simp_all add: bs(2) [OF tf] x)
  from lux_reporting_report [OF this(1) _ this(2), of True sig t_lo t_hi]
  obtain l where
    "lux_reporting sig ?x True t_lo t_hi =
       Inr (if thresholds_valid ?x \<and> report ?x = 1
            then (RET_HW_UPDATE,
                  new_thresholds (?x\<lparr>report := 0, timestamp_report := timestamp ?x, lux := l\<rparr>)
                    t_lo t_hi,
                  Some (l, timestamp ?x))
            else (RET_NO_CHANGE,
                  ?x\<lparr>report := report ?x - 1, timestamp_report := timestamp ?x, lux := l\<rparr>,
                  Some (l, timestamp ?x)))"
    by blast
  then obtain r1 b where "lux_reporting sig ?x True t_lo t_hi = Inr (r1, b, Some (l, timestamp ?x))"
    by (cases "thresholds_valid ?x \<and> report ?x = 1") simp_all
  then have lr: "lux_reporting sig ?x True t_lo t_hi = Inr (r1, b, Some (l, timestamp nl))"
    by (simp only: x(3))
  note b = lux_reporting_frame [OF lr]
  have "table_ok b"
    using tok by (simp add: table_ok_def b x split: option.splits)
  then obtain r2 d where dr: "dynamic_resolution b r1 = Inr (r2, d)" and
    ix: "nld_i_change d \<longrightarrow> (\<exists>tbl. nld_tbl d = Some tbl \<and> unat (nld_i d) < length tbl)"
    using dynamic_resolution_defined by blast
  note d = dynamic_resolution_Inr [OF dr]
  obtain nl' where pt: "poll_time d True 0 = Inr nl'"
    using poll_time_defined [OF ix] by blast
  note nl' = poll_time_Inr [OF pt]
  have rd: "nvs_light_read sig nl = Inr (poll_next_override nl' r2, nl', Some (l, timestamp nl))"
    unfolding nvs_light_read_split using bs(1) tf lr dr pt by blast
  have ce: "calibration_en nl' = calibration_en nl" and ch: "nld_i_change nl' = nld_i_change d"
    by (subst nl', simp add: d b x)+
  have "poll_next_override nl' r2 = RET_POLL_NEXT" if "calibration_en nl"
    using that by (simp add: poll_next_override_def ce)
  moreover have "poll_delay_ms nl' = delay_us_min (cfg nl) div 1000"
    if "calibration_en nl" and "\<not> nld_i_change nl'"
  proof -
    have "cfg d = cfg nl" "calibration_en d"
      using that d(20) by (simp_all add: ch d b x)
    then show ?thesis
      using that by (subst nl') (simp add: ch)
  qed
  ultimately show ?thesis
    using rd by blast
qed

lemma first_read_reports:
  assumes "nvs_light_enable nl = Inr nl0" and "lux_defined (cfg nl0)"
  shows "\<exists>r nl' l. first_read sig nl h t = Inr (r, nl', Some (l, t))"
proof -
  note e = nvs_light_enable_Inr [OF assms(1)]
  have "\<exists>r nl' l. nvs_light_read sig (sample nl0 h t) = Inr (r, nl', Some (l, timestamp (sample nl0 h t))) \<and>
           (calibration_en (sample nl0 h t) \<longrightarrow> r = RET_POLL_NEXT \<and>
              (\<not> nld_i_change nl' \<longrightarrow> poll_delay_ms nl' = delay_us_min (cfg (sample nl0 h t)) div 1000))"
    using e assms(2)
    by (intro nvs_light_read_reports) (simp_all add: table_ok_sample, simp_all add: sample_def)
  then show ?thesis
    using assms(1) by (auto simp add: first_read_def sample_def)
qed

lemma first_read_fault:
  assumes "nvs_light_enable nl = Inr nl0" and "\<not> lux_defined (cfg nl0)"
  shows "first_read sig nl h t = Inl DivByZero"
proof -
  note e = nvs_light_enable_Inr [OF assms(1)]
  have "nvs_light_read sig (sample nl0 h t) = Inl DivByZero"
    using e assms(2) by (intro nvs_light_read_fault) (simp_all add: sample_def)
  then show ?thesis
    using assms(1) by (simp add: first_read_def)
qed

text \<open>What the last report of a burst programs: both thresholds are at the distance
  \<open>cfg->thresh_lo\<close> from the raw value.\<close>

lemma nvs_light_read_last_report:
  assumes rd: "nvs_light_read sig nl = Inr (r, nl', Some call)" and z: "report nl' = 0"
    and v: "thresh_lo (cfg nl) < hw_mask nl"
  shows "hw_thresh_lo nl' = (if hw nl < thresh_lo (cfg nl) then 0 else hw nl - thresh_lo (cfg nl))"
    and "hw_thresh_hi nl' =
           (if hw_mask nl < hw nl + thresh_lo (cfg nl) then hw_mask nl
            else hw nl + thresh_lo (cfg nl))"
    and "\<not> nld_i_change nl' \<Longrightarrow> \<not> calibration_en nl \<Longrightarrow> r = RET_HW_UPDATE"
proof -
  from rd obtain rdm pd a t_lo t_hi r1 b r2 d where
    tf: "threshold_flags (calibration_override nl) = (a, t_lo, t_hi)" and
    lr: "lux_reporting sig (report_trigger (limit_flags a t_lo t_hi)) rdm t_lo t_hi =
           Inr (r1, b, Some call)" and
    dr: "dynamic_resolution b r1 = Inr (r2, d)" and
    pt: "poll_time d rdm pd = Inr nl'" and
    r: "r = poll_next_override nl' r2"
    unfolding nvs_light_read_split by blast
  note x = before_reporting [OF tf]
  have t: "t_lo = thresh_lo (cfg nl)" "t_hi = thresh_lo (cfg nl)"
    using threshold_flags_locals [OF tf] v by (simp_all add: calibration_override_eq)
  let ?x = "report_trigger (limit_flags a t_lo t_hi)"
  note b = lux_reporting_frame [OF lr]
  note d = dynamic_resolution_Inr [OF dr]
  from poll_time_frame [OF pt] obtain p where nl': "nl' = d\<lparr>poll_delay_ms := p\<rparr>" ..
  from lux_reporting_Some(3) [OF lr] obtain l where
    rb: "(r1, b) =
           (if thresholds_valid ?x \<and> report ?x = 1
            then (RET_HW_UPDATE,
                  new_thresholds (?x\<lparr>report := 0, timestamp_report := timestamp ?x, lux := l\<rparr>)
                    t_lo t_hi)
            else (RET_NO_CHANGE,
                  ?x\<lparr>report := report ?x - 1, timestamp_report := timestamp ?x, lux := l\<rparr>))"
    by blast
  have "report b = 0"
    using z by (simp add: nl' d)
  with rb have one: "report ?x = 1"
    by (auto simp add: new_thresholds_eq split: if_splits)
  have vx: "thresholds_valid ?x"
    using v by (simp add: x)
  from rb one vx have r1: "r1 = RET_HW_UPDATE" and
    bb: "b = new_thresholds (?x\<lparr>report := 0, timestamp_report := timestamp ?x, lux := l\<rparr>) t_lo t_hi"
    by simp_all
  show "hw_thresh_lo nl' = (if hw nl < thresh_lo (cfg nl) then 0 else hw nl - thresh_lo (cfg nl))"
    by (simp add: nl' d) (simp add: bb new_thresholds_eq x, simp add: t)
  show "hw_thresh_hi nl' =
           (if hw_mask nl < hw nl + thresh_lo (cfg nl) then hw_mask nl
            else hw nl + thresh_lo (cfg nl))"
    by (simp add: nl' d) (simp add: bb new_thresholds_eq x, simp add: t)
  show "r = RET_HW_UPDATE" if "\<not> nld_i_change nl'" and "\<not> calibration_en nl"
  proof -
    have "r2 = r1"
      using that(1) d(20) by (simp add: nl')
    moreover have "report nl' = 0" "\<not> calibration_en nl'"
      using z that(2) by (simp_all add: nl' d b x)
    ultimately show ?thesis
      by (simp add: r r1 poll_next_override_def)
  qed
qed

subsection \<open>The threshold flags\<close>

text \<open>
  C1 says that \<open>thresh_valid_hi\<close> is true exactly when \<open>cfg->thresh_hi\<close> is smaller
  than \<open>hw_mask\<close>. Line 192 loads the local \<open>thresh_hi\<close> from \<open>cfg->thresh_lo\<close>,
  so all three flags follow \<open>cfg->thresh_lo\<close> (\<open>nvs_light_read_flags\<close>). C1 at a
  failing input: in the example state with \<open>thresh_lo = 10\<close>, \<open>thresh_hi = 2000\<close> and
  \<open>hw_mask = 1023\<close> the high threshold is not smaller than \<open>hw_mask\<close>, and the call
  sets \<open>thresh_valid_hi\<close> and \<open>thresholds_valid\<close> all the same.
\<close>

theorem thresh_valid_hi_follows_thresh_lo:
  "map_sum id (\<lambda>(r, nl', c). (thresh_valid_lo nl', thresh_valid_hi nl', thresholds_valid nl'))
     (nvs_light_read 1000000 (set_thresh_hi 2000 nl_example)) = Inr (True, True, True) \<and>
   \<not> thresh_hi (cfg (set_thresh_hi 2000 nl_example)) < hw_mask (set_thresh_hi 2000 nl_example)"
  by (simp add: read_defs example_defs Let_def)

subsection \<open>The thresholds programmed by the last report of a burst\<close>

text \<open>
  C2 says that the last report of a burst sets \<open>hw_thresh_hi\<close> to \<open>hw\<close> plus
  \<open>cfg->thresh_hi\<close>, clamped at \<open>hw_mask\<close>. The local \<open>thresh_hi\<close> of line 271
  holds \<open>cfg->thresh_lo\<close> (line 192), so both thresholds are at the distance
  \<open>cfg->thresh_lo\<close> (\<open>nvs_light_read_last_report\<close>). C2 at a failing input: with
  \<open>hw = 50\<close>, \<open>thresh_lo = 5\<close>, \<open>thresh_hi = 10\<close>, \<open>hw_mask = 1023\<close> and
  \<open>report = report_n = 1\<close> the call reports, the count reaches 0, the call returns
  \<open>RET_HW_UPDATE\<close> and programs the window 45..55, not 45..60.
\<close>

theorem hw_thresh_hi_follows_thresh_lo:
  "map_sum id (\<lambda>(r, nl', c). (r, report nl', hw_thresh_lo nl', hw_thresh_hi nl'))
     (nvs_light_read 1000000
        (nl_example\<lparr>hw := 50, report := 1,
                     cfg := cfg_example\<lparr>thresh_lo := 5, thresh_hi := 10, report_n := 1\<rparr>\<rparr>)) =
     Inr (RET_HW_UPDATE, 0, 45, 55)"
  by (simp add: read_defs example_defs Let_def word_sless_alt)

subsection \<open>The division of line 250\<close>

text \<open>
  C3 says that no division of the sample processing has a zero divisor. That holds for
  \<open>nvs_light_interpolate\<close> (\<open>nvs_light_interpolate_defined\<close>), for the \<open>do_div\<close> of
  line 185, whose base is 1000, and for the \<open>do_div\<close> of line 246, which line 245
  guards. Line 250 has no such guard: it divides by \<open>scale.fval\<close> whenever
  \<open>resolution.ival\<close> is not zero (\<open>lux_calc_fault\<close>, \<open>nvs_light_read_fault\<close>). C3 at
  a failing input: a reporting call with \<open>scale = (1, 0)\<close> and
  \<open>resolution = (1, 0)\<close> divides by zero.
\<close>

theorem lux_division_by_zero:
  "nvs_light_read 1000000
     (nl_example\<lparr>report := 3,
                  cfg := cfg_example\<lparr>resolution := \<lparr>ival = 1, fval = 0\<rparr>,
                                     scale := \<lparr>ival = 1, fval = 0\<rparr>\<rparr>\<rparr>) = Inl DivByZero"
  by (simp add: read_defs example_defs Let_def)

subsection \<open>The report burst\<close>

text \<open>
  While the threshold window is the one \<open>nvs_light_enable\<close> writes, no raw value is
  inside of it: a raw value is below the all-ones low threshold or above the high
  threshold 0. With valid thresholds lines 226-230 then restart the burst in every
  call, as line 224 does after a change of the resolution index and line 233 without
  valid thresholds. When \<open>report_n\<close> is 2 or more, the count is
  therefore never 1 when a call reports and never 0 after it: lines 261-277, the only
  ones that write the window, are not reached, and the window stays as it is. So after
  \<open>nvs_light_enable\<close> with \<open>report_n\<close> of 2 or more every call that returns leaves
  the window as \<open>nvs_light_enable\<close> wrote it, returns \<open>RET_POLL_NEXT\<close>, and calls
  the handler exactly when the rate-limit gate is open: the burst does not end, and
  neither \<open>RET_NO_CHANGE\<close> nor \<open>RET_HW_UPDATE\<close>, which the file header (lines
  21-24) and the comment of \<open>nvs_light_read\<close> document, is ever returned.
\<close>

lemma word_outside_open_window: "(h :: u32) < - 1 \<or> 0 < h"
proof (cases "h = 0")
  case True
  have "(0 :: u32) < - 1"
    by (simp add: word_greater_zero_iff)
  with True show ?thesis
    by simp
next
  case False
  then show ?thesis
    by (simp add: word_greater_zero_iff)
qed

lemma window_open_outside: "window_open nl \<Longrightarrow> \<not> in_window nl"
  using word_outside_open_window [of "hw nl"]
  by (auto simp add: window_open_def in_window_def)

lemma enable_window_open:
  assumes "nvs_light_enable nl = Inr nl'"
  shows "window_open nl'"
  using nvs_light_enable_Inr [OF assms] by (simp add: window_open_def)

lemma open_window_step:
  assumes w: "window_open s" and n: "1 < report_n (cfg s)"
    and rd: "nvs_light_read sig s = Inr (r, s', c)"
  shows "window_open s'" and "report_n (cfg s') = report_n (cfg s)" and "report s' \<noteq> 0"
    and "r = RET_POLL_NEXT" and "(c \<noteq> None) = gate_open (calibration_override s)"
proof -
  from rd obtain rdm pd a t_lo t_hi r1 b r2 d where
    rl: "rate_limit (calibration_override s) = Inr (rdm, pd)" and
    tf: "threshold_flags (calibration_override s) = (a, t_lo, t_hi)" and
    lr: "lux_reporting sig (report_trigger (limit_flags a t_lo t_hi)) rdm t_lo t_hi = Inr (r1, b, c)" and
    dr: "dynamic_resolution b r1 = Inr (r2, d)" and
    pt: "poll_time d rdm pd = Inr s'" and
    r: "r = poll_next_override s' r2"
    unfolding nvs_light_read_split by blast
  note x = before_reporting [OF tf]
  let ?x = "report_trigger (limit_flags a t_lo t_hi)"
  have rx: "report ?x = report_n (cfg s)"
    using w word_outside_open_window [of "hw s"] by (auto simp add: x window_open_def)
  have rdm: "rdm = gate_open (calibration_override s)"
    using rl by (auto simp add: rate_limit_eq gate_open_def split: if_splits)
  from n have n0: "report_n (cfg s) \<noteq> 0" and n1: "report_n (cfg s) \<noteq> 1"
    by auto
  note k = lux_reporting_count [OF lr]
  have kb: "hw_thresh_lo b = hw_thresh_lo s" "hw_thresh_hi b = hw_thresh_hi s"
    using k(3) n1 by (simp_all add: rx x)
  have rb: "report b \<noteq> 0"
    using n0 n1 by (simp add: k(2) rx)
  note b = lux_reporting_frame [OF lr]
  note d = dynamic_resolution_Inr [OF dr]
  from poll_time_frame [OF pt] obtain p where s': "s' = d\<lparr>poll_delay_ms := p\<rparr>" ..
  show "window_open s'"
    using w by (simp add: window_open_def s' d kb)
  show "report_n (cfg s') = report_n (cfg s)"
    by (simp add: s' dynamic_resolution_report_n [OF dr] b x)
  show rs: "report s' \<noteq> 0"
    using rb by (simp add: s' d)
  show "r = RET_POLL_NEXT"
    using rs by (simp add: r poll_next_override_def)
  have "(c \<noteq> None) = (report ?x \<noteq> 0 \<and> rdm)"
    by (rule k(1))
  then show "(c \<noteq> None) = gate_open (calibration_override s)"
    unfolding rx rdm using n0 by blast
qed

lemma open_window_run:
  assumes "window_open nl" and "1 < report_n (cfg nl)" and "gates_open sig nl xs"
    and "nvs_light_reads sig nl xs = Inr (nl', calls)"
  shows "calls = replicate (length xs) True \<and> window_open nl' \<and>
         report_n (cfg nl') = report_n (cfg nl)"
  using assms
proof (induction xs arbitrary: nl calls)
  case Nil
  then show ?case
    by simp
next
  case (Cons x xs)
  obtain h t where x: "x = (h, t)"
    by (cases x)
  from Cons.prems(4) obtain r n1 c calls' where
    rd: "nvs_light_read sig (sample nl h t) = Inr (r, n1, c)" and
    rest: "nvs_light_reads sig n1 xs = Inr (nl', calls')" and
    calls: "calls = (c \<noteq> None) # calls'"
    by (auto simp add: x split: sum.splits)
  have w: "window_open (sample nl h t)" and n: "1 < report_n (cfg (sample nl h t))"
    using Cons.prems(1,2) by (simp_all add: window_open_def sample_def)
  note st = open_window_step [OF w n rd]
  have g: "gate_open (calibration_override (sample nl h t))" and g': "gates_open sig n1 xs"
    using Cons.prems(3) rd by (simp_all add: x)
  have n1: "1 < report_n (cfg n1)" and cf: "report_n (cfg n1) = report_n (cfg nl)"
    using st(2) Cons.prems(2) by (simp_all add: sample_def)
  from Cons.IH [OF st(1) n1 g' rest] st(5) g calls cf show ?case
    by simp
qed

text \<open>After \<open>nvs_light_enable\<close> with \<open>report_n\<close> of 2 or more, every call of a
  sequence of calls with the gate open calls the handler, however long the sequence
  and whatever the raw values.\<close>

lemma burst_never_ends:
  assumes en: "nvs_light_enable nl = Inr nl0" and n: "1 < report_n (cfg nl0)"
    and g: "gates_open sig nl0 xs" and rd: "enable_reads sig nl xs = Inr (nl', calls)"
  shows "calls = replicate (length xs) True" and "window_open nl'"
proof -
  from rd en have "nvs_light_reads sig nl0 xs = Inr (nl', calls)"
    by (simp add: enable_reads_def)
  from open_window_run [OF enable_window_open [OF en] n g this]
  show "calls = replicate (length xs) True" and "window_open nl'"
    by simp_all
qed

text \<open>With \<open>report_n = 1\<close> the first report after \<open>nvs_light_enable\<close> takes the count
  to 0 and programs the window (90..110 around the raw value 100); the next call with
  the same raw value, 20 ms later, does not report.\<close>

lemma single_report_burst_ends:
  "map_sum id (\<lambda>(nl', calls). (calls, hw_thresh_lo nl', hw_thresh_hi nl', report nl'))
     (enable_reads 1000000 (nl_example\<lparr>cfg := cfg_example\<lparr>report_n := 1\<rparr>\<rparr>)
        [(100, 0), (100, 20000000)]) =
     Inr ([True, False], 90, 110, 0)"
  by (simp add: read_defs example_defs Let_def word_sless_alt)

text \<open>
  C4 says that from the state \<open>nvs_light_enable\<close> leaves, with \<open>report_n = 3\<close>,
  valid thresholds, a raw value that does not cross the threshold window, no change of
  the resolution index and the rate-limit gate open in every call, exactly three
  consecutive calls of \<open>nvs_light_read\<close> call the handler and the fourth does not.
  C4 at a failing input: \<open>nvs_light_enable\<close> on the example state
  (\<open>report_n = 3\<close>, \<open>thresh_lo = 10 < hw_mask = 1023\<close>, no resolution table,
  period 10 ms), then four calls with the same raw value 100, 20 ms apart. All four
  call the handler; after the fourth the window is still the one
  \<open>nvs_light_enable\<close> wrote and the count is 2.
\<close>

theorem burst_after_enable_keeps_reporting:
  "map_sum id (\<lambda>(nl', calls). (calls, hw_thresh_lo nl' = - 1, hw_thresh_hi nl', report nl'))
     (enable_reads 1000000 nl_example
        [(100, 0), (100, 20000000), (100, 40000000), (100, 60000000)]) =
     Inr ([True, True, True, True], True, 0, 2)"
  by (simp add: read_defs example_defs Let_def)

subsection \<open>The rate limit\<close>

text \<open>
  C5, as the claim states it, fails in its bound on the poll delay: with the period
  \<open>delay_us = 10000\<close> (10 ms), \<open>delay_us_min = 50000\<close>, a partially consumed burst
  and 5 ms since the last report, the call does not report and leaves
  \<open>poll_delay_ms = 50\<close>, more than the period. Line 297 raises the poll delay to
  \<open>cfg->delay_us_min\<close>.
\<close>

theorem rate_limited_poll_delay_counterexample:
  "map_sum id (\<lambda>(r, nl', c). (c, poll_delay_ms nl'))
     (nvs_light_read 1000000
        (nl_example\<lparr>timestamp := 5000000, report := 2,
                     cfg := cfg_example\<lparr>delay_us_min := 50000\<rparr>\<rparr>)) = Inr (None, 50) \<and>
   delay_us (nl_example\<lparr>timestamp := 5000000, report := 2,
                        cfg := cfg_example\<lparr>delay_us_min := 50000\<rparr>\<rparr>) div 1000 = 10"
  by (simp add: read_defs example_defs Let_def)

text \<open>
  C5, amended. Take a call with the calibration mode off, a partially consumed burst
  (\<open>report < report_n\<close> at entry) and a resolution table that, if there is one, has
  the entries up to \<open>nld_i_hi\<close>, with \<open>nld_i\<close> not above \<open>nld_i_hi\<close>
  (\<open>table_ok\<close>). If the time \<open>e\<close> since \<open>timestamp_report\<close>, in nanoseconds, is
  not negative and less than the period \<open>delay_us * 1000\<close>, and that product is below
  \<open>2^32\<close>, the range of the \<open>unsigned int\<close> in which line 178 computes it, then
  the call returns without calling the handler. If the call changes the resolution
  index, \<open>poll_delay_ms\<close> is the \<open>delay_min_ms\<close> of the new table entry. Otherwise
  \<open>poll_delay_ms\<close> is \<open>max(w, cfg->delay_us_min) / 1000\<close>, where
  \<open>w = (delay_us * 1000 - e) / 1000\<close> is the remaining wait in microseconds and both
  divisions truncate; so \<open>poll_delay_ms * 1000\<close> is at most the larger of
  \<open>delay_us\<close> and \<open>cfg->delay_us_min\<close>.
\<close>

theorem rate_limited_read:
  assumes cal: "\<not> calibration_en nl" and rp: "report nl < report_n (cfg nl)"
    and e0: "0 \<le> sint (timestamp nl) - sint (timestamp_report nl)"
    and e1: "sint (timestamp nl) - sint (timestamp_report nl) < uint (delay_us nl) * 1000"
    and ov: "uint (delay_us nl) * 1000 < 2 ^ 32"
    and tok: "table_ok nl"
  shows "\<exists>r nl'. nvs_light_read sig nl = Inr (r, nl', None) \<and>
           (if nld_i_change nl'
            then \<exists>tbl. nld_tbl nl = Some tbl \<and>
                   poll_delay_ms nl' = delay_min_ms (tbl ! unat (nld_i nl'))
            else uint (poll_delay_ms nl') =
                   max ((uint (delay_us nl) * 1000 -
                         (sint (timestamp nl) - sint (timestamp_report nl))) div 1000)
                       (uint (delay_us_min (cfg nl))) div 1000 \<and>
                 uint (poll_delay_ms nl') * 1000 \<le>
                   max (uint (delay_us nl)) (uint (delay_us_min (cfg nl))))"
proof -
  let ?w = "(uint (delay_us nl) * 1000 -
             (sint (timestamp nl) - sint (timestamp_report nl))) div 1000"
  have co: "calibration_override nl = nl"
    using cal by (simp add: calibration_override_def)
  from rate_limit_closed [OF rp e0 e1 ov] obtain pd where
    rl: "rate_limit (calibration_override nl) = Inr (False, pd)" and
    upd: "uint pd = ?w" and pd: "pd \<le> delay_us nl"
    unfolding co by blast
  obtain a t_lo t_hi where tf: "threshold_flags (calibration_override nl) = (a, t_lo, t_hi)"
    by (cases "threshold_flags (calibration_override nl)")
  note x = before_reporting [OF tf]
  let ?x = "report_trigger (limit_flags a t_lo t_hi)"
  have lr: "lux_reporting sig ?x False t_lo t_hi = Inr (RET_NO_CHANGE, ?x, None)"
    by (rule lux_reporting_idle) simp
  have "table_ok ?x"
    using tok by (simp add: table_ok_def x split: option.splits)
  then obtain r2 d where dr: "dynamic_resolution ?x RET_NO_CHANGE = Inr (r2, d)" and
    ix: "nld_i_change d \<longrightarrow> (\<exists>tbl. nld_tbl d = Some tbl \<and> unat (nld_i d) < length tbl)"
    using dynamic_resolution_defined by blast
  note d = dynamic_resolution_Inr [OF dr]
  obtain nl' where pt: "poll_time d False pd = Inr nl'"
    using poll_time_defined [OF ix] by blast
  note nl' = poll_time_Inr [OF pt]
  have rd: "nvs_light_read sig nl = Inr (poll_next_override nl' r2, nl', None)"
    unfolding nvs_light_read_split using rl tf lr dr pt by blast
  have ch: "nld_i_change nl' = nld_i_change d" and ni: "nld_i nl' = nld_i d"
    by (subst nl', simp)+
  have "if nld_i_change nl'
        then \<exists>tbl. nld_tbl nl = Some tbl \<and>
               poll_delay_ms nl' = delay_min_ms (tbl ! unat (nld_i nl'))
        else uint (poll_delay_ms nl') = max ?w (uint (delay_us_min (cfg nl))) div 1000 \<and>
             uint (poll_delay_ms nl') * 1000 \<le>
               max (uint (delay_us nl)) (uint (delay_us_min (cfg nl)))"
  proof (cases "nld_i_change d")
    case True
    with ix obtain tbl where "nld_tbl d = Some tbl"
      by blast
    moreover have "poll_delay_ms nl' = delay_min_ms (the (nld_tbl d) ! unat (nld_i d))"
      using True by (subst nl') simp
    ultimately show ?thesis
      using True by (simp add: ch ni d(13) x)
  next
    case False
    let ?p = "if pd < delay_us_min (cfg nl) then delay_us_min (cfg nl) else pd"
    have cd: "cfg d = cfg nl" "calibration_en d = calibration_en nl"
      using d(20) False by (simp_all add: d x)
    have "poll_delay_ms nl' = ?p div 1000"
      using False cal by (subst nl') (simp add: cd)
    then have q: "uint (poll_delay_ms nl') = uint ?p div 1000"
      by (simp add: uint_div)
    have p: "uint ?p = max (uint pd) (uint (delay_us_min (cfg nl)))"
      by (auto simp add: word_less_def max_def)
    have "uint ?p \<le> max (uint (delay_us nl)) (uint (delay_us_min (cfg nl)))"
      using pd by (auto simp add: word_le_def max_def)
    then have "uint (poll_delay_ms nl') * 1000 \<le>
                 max (uint (delay_us nl)) (uint (delay_us_min (cfg nl)))"
      unfolding q by simp
    moreover have "uint (poll_delay_ms nl') = max ?w (uint (delay_us_min (cfg nl))) div 1000"
      unfolding q p upd ..
    ultimately show ?thesis
      using False by (simp only: ch if_False simp_thms)
  qed
  with rd show ?thesis
    by blast
qed

text \<open>In the example state (period 10 ms), 5 ms after the last report: no report;
  with \<open>delay_us_min\<close> of 1 ms the poll delay is the remaining wait, 5 ms, and with
  \<open>delay_us_min\<close> of 7 ms it is raised to 7 ms.\<close>

theorem rate_limited_read_witness:
  "\<not> calibration_en (nl_example\<lparr>timestamp := 5000000, report := 2\<rparr>) \<and>
   report (nl_example\<lparr>timestamp := 5000000, report := 2\<rparr>) <
     report_n (cfg (nl_example\<lparr>timestamp := 5000000, report := 2\<rparr>)) \<and>
   sint (timestamp (nl_example\<lparr>timestamp := 5000000, report := 2\<rparr>)) -
     sint (timestamp_report (nl_example\<lparr>timestamp := 5000000, report := 2\<rparr>)) = 5000000 \<and>
   uint (delay_us (nl_example\<lparr>timestamp := 5000000, report := 2\<rparr>)) * 1000 = 10000000 \<and>
   table_ok (nl_example\<lparr>timestamp := 5000000, report := 2\<rparr>) \<and>
   map_sum id (\<lambda>(r, nl', c). (c, nld_i_change nl', poll_delay_ms nl'))
     (nvs_light_read 1000000 (nl_example\<lparr>timestamp := 5000000, report := 2\<rparr>)) =
     Inr (None, False, 5) \<and>
   map_sum id (\<lambda>(r, nl', c). (c, nld_i_change nl', poll_delay_ms nl'))
     (nvs_light_read 1000000
        (nl_example\<lparr>timestamp := 5000000, report := 2,
                     cfg := cfg_example\<lparr>delay_us_min := 7000\<rparr>\<rparr>)) =
     Inr (None, False, 7)"
  using rate_limited_read [of "nl_example\<lparr>timestamp := 5000000, report := 2\<rparr>" 1000000]
    rate_limited_read [of "nl_example\<lparr>timestamp := 5000000, report := 2,
                                       cfg := cfg_example\<lparr>delay_us_min := 7000\<rparr>\<rparr>" 1000000]
  by (simp add: read_defs example_defs Let_def table_ok_def)

subsection \<open>The calibration mode\<close>

text \<open>
  C6 says that with the scale (1, 0) every call reports. In the calibration mode
  \<open>scale.fval\<close> is 0, so line 250 divides by zero before the handler is called
  whenever \<open>resolution.ival\<close> is not zero (\<open>nvs_light_read_fault\<close>); with
  \<open>resolution.ival = 0\<close> every call does report, returns \<open>RET_POLL_NEXT\<close> and, when
  the resolution index stays, leaves \<open>poll_delay_ms = delay_us_min / 1000\<close>
  (\<open>nvs_light_read_reports\<close>). C6 at a failing input: with \<open>scale = (1, 0)\<close> and
  \<open>resolution = (1, 0)\<close>, \<open>nvs_light_enable\<close> sets \<open>calibration_en\<close> and the next
  call divides by zero.
\<close>

theorem calibration_division_by_zero:
  "map_sum id calibration_en
     (nvs_light_enable (nl_example\<lparr>cfg := cfg_example\<lparr>resolution := \<lparr>ival = 1, fval = 0\<rparr>,
                                                      scale := \<lparr>ival = 1, fval = 0\<rparr>\<rparr>\<rparr>)) =
     Inr True \<and>
   first_read 1000000
     (nl_example\<lparr>cfg := cfg_example\<lparr>resolution := \<lparr>ival = 1, fval = 0\<rparr>,
                                     scale := \<lparr>ival = 1, fval = 0\<rparr>\<rparr>\<rparr>) 100 5000 =
     Inl DivByZero"
  by (simp add: read_defs example_defs Let_def)

subsection \<open>Dynamic resolution\<close>

text \<open>
  C7, as the claim states it, fails at the bounds. A sample can be saturated both ways
  (\<open>hw < thresh_lo\<close> and \<open>hw > hw_mask - thresh_hi\<close>, when the thresholds are larger
  than half of \<open>hw_mask\<close>), and at \<open>nld_i = nld_i_hi\<close> such a sample is not held by
  the upper bound: the test of line 284 fails and the \<open>else if\<close> of line 287 moves
  the index down. With the example table at \<open>nld_i = nld_i_hi = 2\<close>,
  \<open>thresh_lo = thresh_hi = 600\<close>, \<open>hw_mask = 1023\<close> and the raw value 500, both
  limit flags are set and the index goes from 2 to 1.
\<close>

theorem auto_ranging_at_bound_counterexample:
  "nld_i (nl_ranging\<lparr>nld_i := 2, hw := 500,
                      cfg := cfg_example\<lparr>thresh_lo := 600, thresh_hi := 600\<rparr>\<rparr>) =
     nld_i_hi (nl_ranging\<lparr>nld_i := 2, hw := 500,
                           cfg := cfg_example\<lparr>thresh_lo := 600, thresh_hi := 600\<rparr>\<rparr>) \<and>
   map_sum id (\<lambda>(r, nl', c). (r, hw_limit_hi nl', hw_limit_lo nl', nld_i nl'))
     (nvs_light_read 1000000
        (nl_ranging\<lparr>nld_i := 2, hw := 500,
                     cfg := cfg_example\<lparr>thresh_lo := 600, thresh_hi := 600\<rparr>\<rparr>)) =
     Inr (RET_POLL_NEXT, True, True, 1)"
  by (simp add: nl_ranging_def read_defs example_defs Let_def)

text \<open>
  C7, amended. With a resolution table configured, a call of \<open>nvs_light_read\<close>
  returns when the table has the entries up to \<open>nld_i_hi\<close>, \<open>nld_i\<close> is not above
  \<open>nld_i_hi\<close> (\<open>table_ok\<close>) and the division of line 250 is defined
  (\<open>lux_defined\<close>), and every call that returns does this: if the sample is
  saturated high (\<open>hw_limit_hi\<close>, as the call sets it) and \<open>nld_i < nld_i_hi\<close>, the
  index grows by exactly 1 and the call returns \<open>RET_POLL_NEXT\<close>; otherwise, if the
  sample is saturated low (\<open>hw_limit_lo\<close>) and \<open>nld_i > nld_i_lo\<close>, the index
  shrinks by exactly 1 and the call returns \<open>RET_POLL_NEXT\<close>; otherwise the index is
  unchanged. So there is at most one step per call and the high saturation is looked
  at first. At \<open>nld_i = nld_i_hi\<close> the index does not grow, and it is unchanged when
  the sample is not saturated low; at \<open>nld_i = nld_i_lo\<close> the index does not shrink,
  and it is unchanged when the sample is not saturated high. A raw value equal to
  \<open>hw_mask\<close> is saturated high and a raw value of 0 is saturated low.
\<close>

theorem auto_ranging_step:
  assumes "nld_tbl nl \<noteq> None"
  shows "(table_ok nl \<and> lux_defined (cfg nl) \<longrightarrow> (\<exists>r nl' c. nvs_light_read sig nl = Inr (r, nl', c))) \<and>
         (\<forall>r nl' c. nvs_light_read sig nl = Inr (r, nl', c) \<longrightarrow>
            (if hw_limit_hi nl' \<and> nld_i nl < nld_i_hi nl
             then unat (nld_i nl') = unat (nld_i nl) + 1 \<and> r = RET_POLL_NEXT
             else if hw_limit_lo nl' \<and> nld_i_lo nl < nld_i nl
             then unat (nld_i nl') + 1 = unat (nld_i nl) \<and> r = RET_POLL_NEXT
             else nld_i nl' = nld_i nl) \<and>
            (nld_i nl = nld_i_hi nl \<longrightarrow> nld_i nl' \<le> nld_i nl) \<and>
            (nld_i nl = nld_i_lo nl \<longrightarrow> nld_i nl \<le> nld_i nl') \<and>
            (nld_i nl = nld_i_hi nl \<and> \<not> hw_limit_lo nl' \<longrightarrow> nld_i nl' = nld_i nl) \<and>
            (nld_i nl = nld_i_lo nl \<and> \<not> hw_limit_hi nl' \<longrightarrow> nld_i nl' = nld_i nl) \<and>
            (hw nl = hw_mask nl \<longrightarrow> hw_limit_hi nl') \<and> (hw nl = 0 \<longrightarrow> hw_limit_lo nl'))"
proof (intro conjI allI impI)
  assume "table_ok nl \<and> lux_defined (cfg nl)"
  then show "\<exists>r nl' c. nvs_light_read sig nl = Inr (r, nl', c)"
    using nvs_light_read_defined by blast
next
  fix r nl' c
  assume rd: "nvs_light_read sig nl = Inr (r, nl', c)"
  note f = nvs_light_read_nld [OF rd]
  have up: "x \<le> x + 1" if "x < y" for x y :: u32
    using word_succ_unat [OF that] by (simp add: word_le_nat_alt)
  have down: "x - 1 \<le> x" if "y < x" for x y :: u32
    using word_pred_unat [OF that] by (simp add: word_le_nat_alt)
  show "if hw_limit_hi nl' \<and> nld_i nl < nld_i_hi nl
        then unat (nld_i nl') = unat (nld_i nl) + 1 \<and> r = RET_POLL_NEXT
        else if hw_limit_lo nl' \<and> nld_i_lo nl < nld_i nl
        then unat (nld_i nl') + 1 = unat (nld_i nl) \<and> r = RET_POLL_NEXT
        else nld_i nl' = nld_i nl"
    using assms f(1,2,3) by (auto simp add: word_succ_unat word_pred_unat)
  show "nld_i nl' \<le> nld_i nl" if "nld_i nl = nld_i_hi nl"
    using that f(2) down [of "nld_i_lo nl" "nld_i nl"] by auto
  show "nld_i nl \<le> nld_i nl'" if "nld_i nl = nld_i_lo nl"
    using that f(2) up [of "nld_i nl" "nld_i_hi nl"] by auto
  show "nld_i nl' = nld_i nl" if "nld_i nl = nld_i_hi nl \<and> \<not> hw_limit_lo nl'"
    using that f(2) by auto
  show "nld_i nl' = nld_i nl" if "nld_i nl = nld_i_lo nl \<and> \<not> hw_limit_hi nl'"
    using that f(2) by auto
  show "hw_limit_hi nl'" if "hw nl = hw_mask nl"
    using that by (simp add: f(5))
  show "hw_limit_lo nl'" if "hw nl = 0"
    using that by (simp add: f(4))
qed

text \<open>With the example table: at the middle index a raw value at \<open>hw_mask\<close> moves the
  index from 1 to 2 and a raw value of 0 moves it from 1 to 0, both with
  \<open>RET_POLL_NEXT\<close>; at the upper bound a raw value at \<open>hw_mask\<close> leaves the index
  at 2.\<close>

theorem auto_ranging_step_witness:
  "nld_tbl nl_ranging \<noteq> None \<and> table_ok nl_ranging \<and> lux_defined (cfg nl_ranging) \<and>
   map_sum id (\<lambda>(r, nl', c). (r, nld_i nl', hw_limit_hi nl', hw_limit_lo nl'))
     (nvs_light_read 1000000 (sample nl_ranging 1023 0)) = Inr (RET_POLL_NEXT, 2, True, False) \<and>
   map_sum id (\<lambda>(r, nl', c). (r, nld_i nl', hw_limit_hi nl', hw_limit_lo nl'))
     (nvs_light_read 1000000 (sample nl_ranging 0 0)) = Inr (RET_POLL_NEXT, 0, False, True) \<and>
   map_sum id (\<lambda>(r, nl', c). (r, nld_i nl', hw_limit_hi nl', hw_limit_lo nl'))
     (nvs_light_read 1000000 (sample (nl_ranging\<lparr>nld_i := 2\<rparr>) 1023 0)) =
     Inr (RET_POLL_NEXT, 2, True, False)"
proof -
  have "nld_tbl nl_ranging \<noteq> None \<and> table_ok nl_ranging \<and> lux_defined (cfg nl_ranging)"
    by (simp add: nl_ranging_def example_defs table_ok_def lux_defined_def)
  moreover have
    "map_sum id (\<lambda>(r, nl', c). (r, nld_i nl', hw_limit_hi nl', hw_limit_lo nl'))
       (nvs_light_read 1000000 (sample nl_ranging 1023 0)) = Inr (RET_POLL_NEXT, 2, True, False)"
    using auto_ranging_step [of "sample nl_ranging 1023 0" 1000000]
    by (simp add: nl_ranging_def read_defs example_defs Let_def table_ok_def lux_defined_def)
  moreover have
    "map_sum id (\<lambda>(r, nl', c). (r, nld_i nl', hw_limit_hi nl', hw_limit_lo nl'))
       (nvs_light_read 1000000 (sample nl_ranging 0 0)) = Inr (RET_POLL_NEXT, 0, False, True)"
    using auto_ranging_step [of "sample nl_ranging 0 0" 1000000]
    by (simp add: nl_ranging_def read_defs example_defs Let_def table_ok_def lux_defined_def)
  moreover have
    "map_sum id (\<lambda>(r, nl', c). (r, nld_i nl', hw_limit_hi nl', hw_limit_lo nl'))
       (nvs_light_read 1000000 (sample (nl_ranging\<lparr>nld_i := 2\<rparr>) 1023 0)) =
       Inr (RET_POLL_NEXT, 2, True, False)"
    using auto_ranging_step [of "sample (nl_ranging\<lparr>nld_i := 2\<rparr>) 1023 0" 1000000]
    by (simp add: nl_ranging_def read_defs example_defs Let_def table_ok_def lux_defined_def)
  ultimately show ?thesis
    by blast
qed

subsection \<open>The first sample\<close>

text \<open>
  C8 says that the first call after \<open>nvs_light_enable\<close> calls the handler, for every
  raw value and timestamp. Neither the gate nor the window suppresses the report: the
  call reports whenever line 250 is defined (\<open>first_read_reports\<close>). Where it is not,
  the call divides by zero before the handler is called (\<open>first_read_fault\<close>). C8 at a
  failing input: with the scale disabled, \<open>scale = (0, 0)\<close>, and
  \<open>resolution = (1, 0)\<close> the first call divides by zero.
\<close>

theorem first_read_division_by_zero:
  "first_read 1000000
     (nl_example\<lparr>cfg := cfg_example\<lparr>resolution := \<lparr>ival = 1, fval = 0\<rparr>,
                                     scale := \<lparr>ival = 0, fval = 0\<rparr>\<rparr>\<rparr>) 100 5000 =
     Inl DivByZero"
  by (simp add: read_defs example_defs Let_def)

subsection \<open>Interpolation with a degenerate range\<close>

text \<open>
  C9, as the claim states it, fails: with \<open>x3 = x1 = 5\<close> and the query
  \<open>x2 = 2^32 + 7\<close> the function returns 7, not \<open>x2\<close>. The return type is
  \<open>unsigned int\<close> and line 120 casts the 64-bit query to it.
\<close>

theorem nvs_light_interpolate_identity_counterexample:
  "nvs_light_interpolate 5 4294967303 5 1 2 = Inr 7 \<and> sint (4294967303 :: s64) \<noteq> 7"
  by (simp add: nvs_light_interpolate_def)

text \<open>
  C9, amended. Whenever \<open>x3 = x1\<close>, \<open>nvs_light_interpolate\<close> returns the low 32 bits
  of \<open>x2\<close>, that is \<open>x2 mod 2^32\<close> read unsigned, for every query of the 64-bit signed
  domain and every \<open>y1\<close> and \<open>y3\<close>; this is \<open>x2\<close> itself exactly for
  \<open>0 \<le> x2 < 2^32\<close>.
\<close>

theorem nvs_light_interpolate_identity:
  "x3 = x1 \<Longrightarrow>
     nvs_light_interpolate x1 x2 x3 y1 y3 = Inr (ucast x2) \<and>
     uint (ucast x2 :: u32) = sint x2 mod 2 ^ 32 \<and>
     (uint (ucast x2 :: u32) = sint x2) = (0 \<le> sint x2 \<and> sint x2 < 2 ^ 32)"
proof -
  have "uint (ucast x2 :: u32) = take_bit 32 (uint x2)"
    by (simp add: unsigned_ucast_eq)
  also have "\<dots> = take_bit 32 (sint x2)"
    by (simp add: sint_uint take_bit_signed_take_bit)
  also have "\<dots> = sint x2 mod 2 ^ 32"
    by (simp add: take_bit_eq_mod)
  finally have m: "uint (ucast x2 :: u32) = sint x2 mod 2 ^ 32" .
  show ?thesis if "x3 = x1"
    using that by (simp only: m mod_self_iff) (simp add: nvs_light_interpolate_def)
qed

theorem nvs_light_interpolate_identity_witness:
  "nvs_light_interpolate 5 1000 5 1 2 = Inr 1000 \<and>
   nvs_light_interpolate 5 (- 1) 5 1 2 = Inr (ucast (- 1 :: s64)) \<and>
   uint (ucast (- 1 :: s64) :: u32) = 4294967295"
  using nvs_light_interpolate_identity [of 5 5 1000 1 2]
    nvs_light_interpolate_identity [of 5 5 "- 1" 1 2]
  by simp

subsection \<open>The configured high threshold is never read\<close>

lemma lux_calc_thresh_hi: "lux_calc sig h (c\<lparr>thresh_hi := v\<rparr>) = lux_calc sig h c"
  by (simp add: lux_calc_eq)

lemma calibration_override_thresh_hi:
  "calibration_override (set_thresh_hi v nl) = set_thresh_hi v (calibration_override nl)"
  by (simp add: calibration_override_def set_thresh_hi_def)

lemma rate_limit_thresh_hi: "rate_limit (set_thresh_hi v nl) = rate_limit nl"
  by (simp add: rate_limit_def set_thresh_hi_def)

lemma threshold_flags_thresh_hi:
  "threshold_flags (set_thresh_hi v nl) =
     (case threshold_flags nl of (a, t_lo, t_hi) \<Rightarrow> (set_thresh_hi v a, t_lo, t_hi))"
  by (simp add: threshold_flags_def set_thresh_hi_def Let_def)

lemma limit_flags_thresh_hi:
  "limit_flags (set_thresh_hi v nl) t_lo t_hi = set_thresh_hi v (limit_flags nl t_lo t_hi)"
  by (simp add: limit_flags_def set_thresh_hi_def Let_def)

lemma report_trigger_thresh_hi:
  "report_trigger (set_thresh_hi v nl) = set_thresh_hi v (report_trigger nl)"
  by (simp add: report_trigger_def set_thresh_hi_def)

lemma lux_reporting_thresh_hi:
  "lux_reporting sig (set_thresh_hi v nl) rdm t_lo t_hi =
     map_sum id (\<lambda>(r, a, c). (r, set_thresh_hi v a, c)) (lux_reporting sig nl rdm t_lo t_hi)"
  by (auto simp add: lux_reporting_def set_thresh_hi_def Let_def lux_calc_thresh_hi
      new_thresholds_def split: sum.splits)

lemma nvs_light_nld_thresh_hi:
  "nvs_light_nld (set_thresh_hi v nl) i =
     map_sum id (\<lambda>(r, a). (r, set_thresh_hi v a)) (nvs_light_nld nl i)"
  by (simp add: nvs_light_nld_def set_thresh_hi_def Let_def split: option.splits)

lemma set_thresh_hi_sel:
  "hw_limit_hi (set_thresh_hi v nl) = hw_limit_hi nl"
  "hw_limit_lo (set_thresh_hi v nl) = hw_limit_lo nl"
  "nld_i (set_thresh_hi v nl) = nld_i nl"
  "nld_i_hi (set_thresh_hi v nl) = nld_i_hi nl"
  "nld_i_lo (set_thresh_hi v nl) = nld_i_lo nl"
  "nld_tbl (set_thresh_hi v nl) = nld_tbl nl"
  "(set_thresh_hi v nl)\<lparr>nld_i_change := b\<rparr> = set_thresh_hi v (nl\<lparr>nld_i_change := b\<rparr>)"
  by (simp_all add: set_thresh_hi_def)

lemma dynamic_resolution_thresh_hi:
  "dynamic_resolution (set_thresh_hi v nl) r =
     map_sum id (\<lambda>(r, a). (r, set_thresh_hi v a)) (dynamic_resolution nl r)"
  unfolding dynamic_resolution_def Let_def set_thresh_hi_sel
  by (simp add: nvs_light_nld_thresh_hi set_thresh_hi_sel)

lemma poll_time_thresh_hi:
  "poll_time (set_thresh_hi v nl) rdm pd = map_sum id (set_thresh_hi v) (poll_time nl rdm pd)"
  by (simp add: poll_time_def set_thresh_hi_def Let_def split: option.splits)

lemma poll_next_override_thresh_hi:
  "poll_next_override (set_thresh_hi v nl) r = poll_next_override nl r"
  by (simp add: poll_next_override_def set_thresh_hi_def)

text \<open>
  C10. The behaviour of \<open>nvs_light_read\<close> does not depend on the configured high
  threshold \<open>cfg->thresh_hi\<close>: on a state whose \<open>thresh_hi\<close> is replaced by any value
  \<open>v\<close> the call gives the same fault or the same return value, the same call of the
  handler (so the same lux) and the same final state, thresholds, resolution index and
  poll delay included, apart from the field \<open>thresh_hi\<close> itself. Two states that
  differ only in \<open>thresh_hi\<close> are \<open>nl\<close> and \<open>set_thresh_hi v nl\<close>.
\<close>

theorem nvs_light_read_independent_of_thresh_hi:
  "nvs_light_read sig (set_thresh_hi v nl) =
     map_sum id (\<lambda>(r, nl', c). (r, set_thresh_hi v nl', c)) (nvs_light_read sig nl)"
  by (simp add: nvs_light_read_def Let_def calibration_override_thresh_hi rate_limit_thresh_hi
      threshold_flags_thresh_hi limit_flags_thresh_hi report_trigger_thresh_hi
      lux_reporting_thresh_hi dynamic_resolution_thresh_hi poll_time_thresh_hi
      poll_next_override_thresh_hi split: sum.splits prod.splits)

text \<open>The same at the example state (\<open>thresh_hi = 20\<close>) and \<open>v = 500\<close>; the call
  reports there.\<close>

theorem nvs_light_read_independent_of_thresh_hi_witness:
  "nvs_light_read 1000000 (set_thresh_hi 500 (nl_example\<lparr>report := 3\<rparr>)) =
     map_sum id (\<lambda>(r, nl', c). (r, set_thresh_hi 500 nl', c))
       (nvs_light_read 1000000 (nl_example\<lparr>report := 3\<rparr>)) \<and>
   map_sum id (\<lambda>(r, nl', c). c) (nvs_light_read 1000000 (nl_example\<lparr>report := 3\<rparr>)) =
     Inr (Some (125, 0))"
  using nvs_light_read_independent_of_thresh_hi [of 1000000 500 "nl_example\<lparr>report := 3\<rparr>"]
  by (simp add: read_defs example_defs)

end
